theory Spec2Isabelle
  imports Main "HOL-Library.Word"
begin

unbundle bit_operations_syntax

section \<open>Wire codec (include/swiftwire/protocol.hpp)\<close>

type_synonym byte = "8 word"
type_synonym u32 = "32 word"
type_synonym u64 = "64 word"
type_synonym size_t = "64 word"

definition MSG_HELLO :: byte where
  "MSG_HELLO = 0x01"

definition MSG_HELLO_ACK :: byte where
  "MSG_HELLO_ACK = 0x81"

text \<open>
  A \<^verbatim>\<open>char*\<close> argument is modelled by the bytes that start at the pointer: \<open>p ! i\<close> is
  \<^verbatim>\<open>p[i]\<close>, and \<^verbatim>\<open>buf + k\<close> is \<open>drop k buf\<close>. A \<^verbatim>\<open>char\<close> is kept as its
  \<^verbatim>\<open>uint8_t\<close> value. The writers return the updated bytes. The C++ callers always pass
  at least 4 (8) bytes; a shorter buffer is undefined behaviour in C++ and is outside every
  theorem below.
\<close>

definition write_u32be :: "byte list \<Rightarrow> u32 \<Rightarrow> byte list" where
  "write_u32be p v =
     p[0 := ucast (drop_bit 24 v AND 0xFF),
       1 := ucast (drop_bit 16 v AND 0xFF),
       2 := ucast (drop_bit 8 v AND 0xFF),
       3 := ucast (v AND 0xFF)]"

definition read_u32be :: "byte list \<Rightarrow> u32" where
  "read_u32be p =
     push_bit 24 (ucast (p ! 0)) OR push_bit 16 (ucast (p ! 1)) OR
     push_bit 8 (ucast (p ! 2)) OR ucast (p ! 3)"

text \<open>
  The iterations \<^verbatim>\<open>for (int i = 7; i >= 0; --i)\<close> and \<^verbatim>\<open>for (int i = 0; i < 8; ++i)\<close>
  run over the index lists \<open>rev [0..<8]\<close> and \<open>[0..<8]\<close>.
\<close>

definition write_u64be :: "byte list \<Rightarrow> u64 \<Rightarrow> byte list" where
  "write_u64be p v =
     foldl (\<lambda>q i. q[7 - i := ucast (drop_bit (i * 8) v AND 0xFF)]) p (rev [0..<8])"

definition read_u64be :: "byte list \<Rightarrow> u64" where
  "read_u64be p = foldl (\<lambda>v i. push_bit 8 v OR ucast (p ! i)) 0 [0..<8]"


section \<open>Asio calls and results, as far as the sessions see them\<close>

text \<open>
  \<open>Success\<close> is the error code that tests false; the other constructors are the
  \<^verbatim>\<open>boost::asio::error\<close> values the sources name, and \<open>io_error n\<close> any other one.
\<close>

datatype error_code =
  Success | operation_aborted | timed_out | message_size | no_buffer_space
  | invalid_argument | fault | io_error nat

text \<open>The calls the sources make on their socket, timer and resolver, in program order.\<close>

datatype io_call =
  Set_no_delay | Timer_expires_after | Timer_cancel
  | Socket_cancel | Socket_shutdown | Socket_close
  | Async_resolve | Async_connect | Async_read nat | Async_write "byte list"


section \<open>Server session (src/server.cpp, include/swiftwire/server.hpp)\<close>

record ServerConfig =
  threads :: nat
  idle_timeout :: nat
  max_frame :: size_t
  max_write_queue_bytes :: size_t
  tcp_nodelay :: bool

text \<open>The member initialisers of \<^verbatim>\<open>ServerConfig\<close>; the thread count is the machine's.\<close>

definition default_config :: "nat \<Rightarrow> ServerConfig" where
  "default_config hw =
     \<lparr>threads = max 1 hw, idle_timeout = 60, max_frame = push_bit 20 1,
      max_write_queue_bytes = push_bit 20 8, tcp_nodelay = True\<rparr>"

datatype read_op = No_read | Read_len | Read_body

text \<open>
  The first six fields are the data members of \<^verbatim>\<open>Session\<close> (\<^verbatim>\<open>cfg_\<close>,
  \<^verbatim>\<open>lenbuf_\<close>, \<^verbatim>\<open>body_\<close>, \<^verbatim>\<open>write_queue_\<close>, \<^verbatim>\<open>pending_bytes_\<close>, \<^verbatim>\<open>closed_\<close>; a name
  cannot end in an underscore here). The others stand for what the
  session's asio objects hold: whether the socket is open, which \<^verbatim>\<open>async_read\<close> and whether
  an \<^verbatim>\<open>async_write\<close> is outstanding, and the calls made so far. \<open>close_reason\<close> keeps the
  argument of the call of \<^verbatim>\<open>fail_and_close\<close> that closed the session (the code drops it:
  \<^verbatim>\<open>(void)ec; // optionally log\<close>).
\<close>

record Session =
  cfg :: ServerConfig
  lenbuf :: "byte list"
  body :: "byte list"
  write_queue :: "byte list list"
  pending_bytes :: size_t
  closed :: bool
  socket_open :: bool
  reading :: read_op
  writing :: bool
  close_reason :: "error_code option"
  io_log :: "io_call list"

definition Session_new :: "ServerConfig \<Rightarrow> Session" where
  "Session_new config =
     \<lparr>cfg = config, lenbuf = replicate 4 0, body = [], write_queue = [],
      pending_bytes = 0, closed = False, socket_open = True, reading = No_read,
      writing = False, close_reason = None, io_log = []\<rparr>"

definition io :: "io_call \<Rightarrow> Session \<Rightarrow> Session" where
  "io c s = s\<lparr>io_log := io_log s @ [c]\<rparr>"

text \<open>\<^verbatim>\<open>std::vector::resize\<close>: keep a prefix, or pad with zero bytes.\<close>

definition resize :: "byte list \<Rightarrow> nat \<Rightarrow> byte list" where
  "resize v n = take n v @ replicate (n - length v) 0"

definition refresh_timer :: "Session \<Rightarrow> Session" where
  "refresh_timer s = io Timer_expires_after s"

definition cancel_timer :: "Session \<Rightarrow> Session" where
  "cancel_timer s = io Timer_cancel s"

definition fail_and_close :: "error_code \<Rightarrow> Session \<Rightarrow> Session" where
  "fail_and_close ec s =
     (if closed s then s
      else (io Socket_close (io Socket_shutdown (cancel_timer (s\<lparr>closed := True\<rparr>))))
             \<lparr>socket_open := False, close_reason := Some ec\<rparr>)"

definition read_len :: "Session \<Rightarrow> Session" where
  "read_len s = (io (Async_read 4) (refresh_timer s))\<lparr>reading := Read_len\<rparr>"

definition read_body :: "Session \<Rightarrow> Session" where
  "read_body s = (io (Async_read (length (body s))) (refresh_timer s))\<lparr>reading := Read_body\<rparr>"

definition do_write :: "Session \<Rightarrow> Session" where
  "do_write s =
     (case write_queue s of
        [] \<Rightarrow> s
      | front # _ \<Rightarrow> (io (Async_write front) (refresh_timer s))\<lparr>writing := True\<rparr>)"

definition enqueue_write :: "byte list \<Rightarrow> Session \<Rightarrow> Session" where
  "enqueue_write buf s =
     (let s1 = s\<lparr>pending_bytes := pending_bytes s + word_of_nat (length buf)\<rparr> in
      if pending_bytes s1 > max_write_queue_bytes (cfg s1)
      then fail_and_close no_buffer_space s1
      else
        let idle = (write_queue s1 = []);
            s2 = s1\<lparr>write_queue := write_queue s1 @ [buf]\<rparr>
        in if idle then do_write s2 else s2)"

text \<open>Lines 78 to 83 of \<^verbatim>\<open>send_hello_ack\<close>: the 14 bytes of the reply.\<close>

definition hello_ack_buf :: "u64 \<Rightarrow> byte \<Rightarrow> byte list" where
  "hello_ack_buf ident status =
     (let body_len = 1 + 8 + 1;
          buf = replicate (4 + body_len) (0 :: byte);
          buf = write_u32be buf (word_of_nat body_len);
          buf = buf[4 := MSG_HELLO_ACK];
          buf = take 5 buf @ write_u64be (drop 5 buf) ident;
          buf = buf[13 := status]
      in buf)"

definition send_hello_ack :: "u64 \<Rightarrow> byte \<Rightarrow> Session \<Rightarrow> Session" where
  "send_hello_ack ident status s = enqueue_write (hello_ack_buf ident status) s"

definition handle_message :: "Session \<Rightarrow> Session" where
  "handle_message s =
     (let s1 = cancel_timer s in
      if body s1 = [] then s1
      else
        let type = body s1 ! 0 in
        if type = MSG_HELLO then
          (if length (body s1) < 1 + 8 then s1
           else send_hello_ack (read_u64be (drop 1 (body s1))) 0 s1)
        else
          (if length (body s1) \<ge> 1 + 8
           then send_hello_ack (read_u64be (drop 1 (body s1))) 1 s1
           else s1))"

text \<open>
  The completion handlers (the lambdas). Each runs as one step; the bytes an \<^verbatim>\<open>async_read\<close>
  delivered are in \<open>lenbuf\<close> or \<open>body\<close> when its handler starts.
\<close>

definition on_read_len :: "error_code \<Rightarrow> Session \<Rightarrow> Session" where
  "on_read_len ec s =
     (if ec \<noteq> Success then fail_and_close ec s
      else
        let blen = read_u32be (lenbuf s) in
        if blen = 0 \<or> (ucast blen :: size_t) > max_frame (cfg s)
        then fail_and_close message_size s
        else read_body (s\<lparr>body := resize (body s) (unat blen)\<rparr>))"

definition on_read_body :: "error_code \<Rightarrow> Session \<Rightarrow> Session" where
  "on_read_body ec s =
     (if ec \<noteq> Success then fail_and_close ec s
      else read_len (handle_message s))"

text \<open>\<^verbatim>\<open>front()\<close> of an empty deque is undefined behaviour: \<open>None\<close>.\<close>

definition on_write :: "error_code \<Rightarrow> size_t \<Rightarrow> Session \<Rightarrow> Session option" where
  "on_write ec n s =
     (case write_queue s of
        [] \<Rightarrow> None
      | front # rest \<Rightarrow>
          Some
            (let s1 = s\<lparr>pending_bytes := pending_bytes s - min n (word_of_nat (length front)),
                        write_queue := rest\<rparr>
             in if ec \<noteq> Success then fail_and_close ec s1
                else if write_queue s1 \<noteq> [] then do_write s1 else s1))"

definition on_timer :: "error_code \<Rightarrow> Session \<Rightarrow> Session" where
  "on_timer ec s = (if ec = operation_aborted then s else fail_and_close timed_out s)"

definition start :: "Session \<Rightarrow> Session" where
  "start s =
     (let s1 = (if tcp_nodelay (cfg s) then io Set_no_delay s else s)
      in read_len (refresh_timer s1))"

text \<open>
  What asio can deliver to a session. A read completes with the buffer's bytes; an
  \<^verbatim>\<open>async_write\<close> reports at most the size of its buffer, and all of it when it succeeds;
  a timer wait may complete at any time. \<open>deliver\<close> is \<open>None\<close> where the completion is
  not outstanding, and where the handler has undefined behaviour.

  \<open>deliver\<close> runs a handler from its first statement to its last, and \<open>run\<close> runs the
  handlers one after the other: these are the schedules of a session whose handlers are
  serialised, as they are when one thread calls \<^verbatim>\<open>io.run()\<close>. The session has no strand and
  no lock (only \<^verbatim>\<open>closed_\<close> is atomic), and \<^verbatim>\<open>examples/server_example.cpp\<close> calls
  \<^verbatim>\<open>io.run()\<close> on \<open>threads\<close> threads; a schedule in which two handlers of one session
  overlap is not a \<open>run\<close>. One such schedule is \<open>two_thread_schedule\<close> below.
\<close>

datatype event =
  Len_read error_code "byte list"
  | Body_read error_code "byte list"
  | Write_done error_code size_t
  | Timer_done error_code

definition write_result_ok :: "Session \<Rightarrow> error_code \<Rightarrow> size_t \<Rightarrow> bool" where
  "write_result_ok s ec n =
     (case write_queue s of
        [] \<Rightarrow> True
      | front # _ \<Rightarrow> unat n \<le> length front \<and> (ec = Success \<longrightarrow> unat n = length front))"

fun deliver :: "event \<Rightarrow> Session \<Rightarrow> Session option" where
  "deliver (Len_read ec bytes) s =
     (if reading s = Read_len \<and> length bytes = 4
      then Some (on_read_len ec (s\<lparr>lenbuf := bytes, reading := No_read\<rparr>))
      else None)"
| "deliver (Body_read ec bytes) s =
     (if reading s = Read_body \<and> length bytes = length (body s)
      then Some (on_read_body ec (s\<lparr>body := bytes, reading := No_read\<rparr>))
      else None)"
| "deliver (Write_done ec n) s =
     (if writing s \<and> write_result_ok s ec n
      then on_write ec n (s\<lparr>writing := False\<rparr>)
      else None)"
| "deliver (Timer_done ec) s = Some (on_timer ec s)"

fun run :: "event list \<Rightarrow> Session \<Rightarrow> Session option" where
  "run [] s = Some s"
| "run (e # es) s = (case deliver e s of None \<Rightarrow> None | Some s' \<Rightarrow> run es s')"

definition queued_bytes :: "byte list list \<Rightarrow> nat" where
  "queued_bytes q = sum_list (map length q)"

text \<open>
  \<^verbatim>\<open>pending_bytes_ += buf->size()\<close> reads \<^verbatim>\<open>pending_bytes_\<close>, adds, and writes the sum back;
  \<^verbatim>\<open>pending_bytes_\<close> is a plain \<^verbatim>\<open>std::size_t\<close>. \<open>enqueue_write_store loaded buf\<close> is
  \<open>enqueue_write buf\<close> from the write-back on, \<open>loaded\<close> being the value that was read.
\<close>

definition enqueue_write_store :: "size_t \<Rightarrow> byte list \<Rightarrow> Session \<Rightarrow> Session" where
  "enqueue_write_store loaded buf s =
     (let s1 = s\<lparr>pending_bytes := loaded + word_of_nat (length buf)\<rparr> in
      if pending_bytes s1 > max_write_queue_bytes (cfg s1)
      then fail_and_close no_buffer_space s1
      else
        let idle = (write_queue s1 = []);
            s2 = s1\<lparr>write_queue := write_queue s1 @ [buf]\<rparr>
        in if idle then do_write s2 else s2)"


text \<open>
  The reading of the words ``the trailing 8 bytes of the body'': its last 8 bytes.
  \<open>handle_message\<close> does not use it.
\<close>

definition trailing_8_bytes :: "byte list \<Rightarrow> byte list" where
  "trailing_8_bytes b = drop (length b - 8) b"


section \<open>Client (src/client.cpp, include/swiftwire/client.hpp)\<close>

record AsyncClient =
  cl_lenbuf :: "byte list"
  cl_body :: "byte list"
  cl_socket_open :: bool
  cl_log :: "io_call list"

definition AsyncClient_new :: AsyncClient where
  "AsyncClient_new =
     \<lparr>cl_lenbuf = replicate 4 0, cl_body = [], cl_socket_open = False, cl_log = []\<rparr>"

definition cl_io :: "io_call \<Rightarrow> AsyncClient \<Rightarrow> AsyncClient" where
  "cl_io c a = a\<lparr>cl_log := cl_log a @ [c]\<rparr>"


text \<open>
  One call of \<^verbatim>\<open>async_connect\<close> or \<^verbatim>\<open>async_handshake\<close>: the client it captured, its
  \<^verbatim>\<open>*done\<close> flag, the invocations of its \<^verbatim>\<open>handler\<close> (oldest first), whether the wait
  started by \<^verbatim>\<open>arm_timer\<close> has still to complete, and which step of the I/O chain is
  outstanding.
\<close>

record ('r, 'st) pending_op =
  op_self :: AsyncClient
  op_done :: bool
  op_handler_calls :: "'r list"
  op_timer_wait :: bool
  op_stage :: 'st

definition op_io :: "io_call \<Rightarrow> ('r, 'st) pending_op \<Rightarrow> ('r, 'st) pending_op" where
  "op_io c p = p\<lparr>op_self := cl_io c (op_self p)\<rparr>"

definition invoke :: "'r \<Rightarrow> ('r, 'st) pending_op \<Rightarrow> ('r, 'st) pending_op" where
  "invoke r p = p\<lparr>op_handler_calls := op_handler_calls p @ [r]\<rparr>"

definition op_cancel_timer :: "('r, 'st) pending_op \<Rightarrow> ('r, 'st) pending_op" where
  "op_cancel_timer p = op_io Timer_cancel p"

text \<open>The handler \<^verbatim>\<open>arm_timer\<close> gives to \<^verbatim>\<open>async_wait\<close>.\<close>

definition timer_handler ::
  "error_code \<Rightarrow> (('r, 'st) pending_op \<Rightarrow> ('r, 'st) pending_op) \<Rightarrow>
   ('r, 'st) pending_op \<Rightarrow> ('r, 'st) pending_op" where
  "timer_handler tec on_timeout p = (if tec = operation_aborted then p else on_timeout p)"

subsection \<open>\<^verbatim>\<open>async_connect\<close>\<close>

datatype connect_stage = Resolving | Connecting | Connect_ended

type_synonym connect_op = "(error_code, connect_stage) pending_op"

definition async_connect :: "AsyncClient \<Rightarrow> connect_op" where
  "async_connect a =
     \<lparr>op_self = cl_io Async_resolve (cl_io Timer_expires_after a), op_done = False,
      op_handler_calls = [], op_timer_wait = True, op_stage = Resolving\<rparr>"

definition op_close_socket :: "('r, 'st) pending_op \<Rightarrow> ('r, 'st) pending_op" where
  "op_close_socket p =
     (let p1 = op_io Socket_close p in p1\<lparr>op_self := (op_self p1)\<lparr>cl_socket_open := False\<rparr>\<rparr>)"

definition connect_on_timeout :: "connect_op \<Rightarrow> connect_op" where
  "connect_on_timeout p =
     (if op_done p then p
      else
        let p1 = p\<lparr>op_done := True\<rparr>;
            p2 = op_io Socket_cancel p1;
            p3 = op_close_socket p2
        in invoke timed_out p3)"

definition on_connected :: "error_code \<Rightarrow> connect_op \<Rightarrow> connect_op" where
  "on_connected ec2 p =
     (if op_done p then p
      else
        let p1 = op_cancel_timer (p\<lparr>op_done := True\<rparr>);
            p2 = (if ec2 = Success then op_io Set_no_delay p1 else p1)
        in invoke ec2 p2)"

definition on_resolved :: "error_code \<Rightarrow> connect_op \<Rightarrow> connect_op" where
  "on_resolved ec p =
     (if op_done p then p\<lparr>op_stage := Connect_ended\<rparr>
      else if ec \<noteq> Success
      then (invoke ec (op_cancel_timer (p\<lparr>op_done := True\<rparr>)))\<lparr>op_stage := Connect_ended\<rparr>
      else (op_io Async_connect p)\<lparr>op_stage := Connecting\<rparr>)"

text \<open>
  What asio can deliver to one call: the completion of the timer wait, of the resolve and of
  the connect, each once and with any error code (a cancelled operation still completes, as
  a rule with \<open>operation_aborted\<close>). After a connect the socket is open exactly when the
  connect succeeded and the timeout handler has not closed the socket meanwhile.
\<close>

datatype connect_event = Connect_timer error_code | Resolved error_code | Connected error_code

fun deliver_connect :: "connect_event \<Rightarrow> connect_op \<Rightarrow> connect_op option" where
  "deliver_connect (Connect_timer tec) p =
     (if op_timer_wait p
      then Some (timer_handler tec connect_on_timeout (p\<lparr>op_timer_wait := False\<rparr>))
      else None)"
| "deliver_connect (Resolved ec) p =
     (if op_stage p = Resolving then Some (on_resolved ec p) else None)"
| "deliver_connect (Connected ec2) p =
     (if op_stage p = Connecting
      then Some (on_connected ec2
                  (p\<lparr>op_stage := Connect_ended,
                     op_self := (op_self p)
                       \<lparr>cl_socket_open :=
                          (if op_done p then cl_socket_open (op_self p) else ec2 = Success)\<rparr>\<rparr>))
      else None)"

fun run_connect :: "connect_event list \<Rightarrow> connect_op \<Rightarrow> connect_op option" where
  "run_connect [] p = Some p"
| "run_connect (e # es) p =
     (case deliver_connect e p of None \<Rightarrow> None | Some p' \<Rightarrow> run_connect es p')"

subsection \<open>\<^verbatim>\<open>async_handshake\<close>\<close>

datatype handshake_stage = Writing_hello | Reading_len | Reading_body | Handshake_ended

type_synonym hello_result = "error_code \<times> u64 \<times> byte"

type_synonym handshake_op = "(hello_result, handshake_stage) pending_op"

text \<open>The request \<^verbatim>\<open>[4B len=9][1B type][8B id]\<close>, built in a zeroed array of 13 bytes.\<close>

definition hello_request :: "u64 \<Rightarrow> byte list" where
  "hello_request client_id =
     (let req = replicate (4 + 1 + 8) (0 :: byte);
          req = write_u32be req (1 + 8);
          req = req[4 := MSG_HELLO];
          req = take 5 req @ write_u64be (drop 5 req) client_id
      in req)"

definition async_handshake :: "u64 \<Rightarrow> AsyncClient \<Rightarrow> handshake_op" where
  "async_handshake client_id a =
     \<lparr>op_self = cl_io (Async_write (hello_request client_id)) (cl_io Timer_expires_after a),
      op_done = False, op_handler_calls = [], op_timer_wait = True,
      op_stage = Writing_hello\<rparr>"

definition handshake_on_timeout :: "handshake_op \<Rightarrow> handshake_op" where
  "handshake_on_timeout p =
     (if op_done p then p
      else invoke (timed_out, 0, 0) (op_io Socket_cancel (p\<lparr>op_done := True\<rparr>)))"

definition on_hello_written :: "error_code \<Rightarrow> handshake_op \<Rightarrow> handshake_op" where
  "on_hello_written ec p =
     (if op_done p then p\<lparr>op_stage := Handshake_ended\<rparr>
      else if ec \<noteq> Success
      then (invoke (ec, 0, 0) (op_cancel_timer (p\<lparr>op_done := True\<rparr>)))
             \<lparr>op_stage := Handshake_ended\<rparr>
      else (op_io (Async_read 4) p)\<lparr>op_stage := Reading_len\<rparr>)"

definition kMax :: u32 where
  "kMax = push_bit 20 1"

definition on_ack_len :: "error_code \<Rightarrow> handshake_op \<Rightarrow> handshake_op" where
  "on_ack_len ec2 p =
     (if op_done p then p\<lparr>op_stage := Handshake_ended\<rparr>
      else if ec2 \<noteq> Success
      then (invoke (ec2, 0, 0) (op_cancel_timer (p\<lparr>op_done := True\<rparr>)))
             \<lparr>op_stage := Handshake_ended\<rparr>
      else
        let blen = read_u32be (cl_lenbuf (op_self p)) in
        if blen < 1 + 8 + 1 \<or> blen > kMax
        then (invoke (invalid_argument, 0, 0) (op_cancel_timer (p\<lparr>op_done := True\<rparr>)))
               \<lparr>op_stage := Handshake_ended\<rparr>
        else
          let a = op_self p;
              p1 = p\<lparr>op_self := a\<lparr>cl_body := resize (cl_body a) (unat blen)\<rparr>\<rparr>
          in (op_io (Async_read (length (cl_body (op_self p1)))) p1)
               \<lparr>op_stage := Reading_body\<rparr>)"

definition on_ack_body :: "u64 \<Rightarrow> error_code \<Rightarrow> handshake_op \<Rightarrow> handshake_op" where
  "on_ack_body client_id ec3 p =
     (if op_done p then p
      else
        let p1 = op_cancel_timer (p\<lparr>op_done := True\<rparr>);
            b = cl_body (op_self p1)
        in
          if ec3 \<noteq> Success then invoke (ec3, 0, 0) p1
          else if length b < 1 + 8 + 1 then invoke (invalid_argument, 0, 0) p1
          else if b ! 0 \<noteq> MSG_HELLO_ACK then invoke (fault, 0, 0) p1
          else
            let echoed = read_u64be (drop 1 b) in
            if echoed \<noteq> client_id then invoke (fault, 0, 0) p1
            else invoke (Success, echoed, b ! (1 + 8)) p1)"

datatype handshake_event =
  Handshake_timer error_code
  | Hello_written error_code
  | Ack_len error_code "byte list"
  | Ack_body error_code "byte list"

fun deliver_handshake :: "u64 \<Rightarrow> handshake_event \<Rightarrow> handshake_op \<Rightarrow> handshake_op option" where
  "deliver_handshake client_id (Handshake_timer tec) p =
     (if op_timer_wait p
      then Some (timer_handler tec handshake_on_timeout (p\<lparr>op_timer_wait := False\<rparr>))
      else None)"
| "deliver_handshake client_id (Hello_written ec) p =
     (if op_stage p = Writing_hello then Some (on_hello_written ec p) else None)"
| "deliver_handshake client_id (Ack_len ec2 bytes) p =
     (if op_stage p = Reading_len \<and> length bytes = 4
      then Some (on_ack_len ec2 (p\<lparr>op_self := (op_self p)\<lparr>cl_lenbuf := bytes\<rparr>\<rparr>))
      else None)"
| "deliver_handshake client_id (Ack_body ec3 bytes) p =
     (if op_stage p = Reading_body \<and> length bytes = length (cl_body (op_self p))
      then Some (on_ack_body client_id ec3
                  (p\<lparr>op_stage := Handshake_ended,
                     op_self := (op_self p)\<lparr>cl_body := bytes\<rparr>\<rparr>))
      else None)"

fun run_handshake :: "u64 \<Rightarrow> handshake_event list \<Rightarrow> handshake_op \<Rightarrow> handshake_op option" where
  "run_handshake client_id [] p = Some p"
| "run_handshake client_id (e # es) p =
     (case deliver_handshake client_id e p of
        None \<Rightarrow> None
      | Some p' \<Rightarrow> run_handshake client_id es p')"


section \<open>Invariants of a session\<close>





section \<open>Invariant of a pending operation\<close>

text \<open>The handler has run once when \<^verbatim>\<open>*done\<close> is set, and not at all before.\<close>

definition once_inv :: "('r, 'st) pending_op \<Rightarrow> bool" where
  "once_inv p \<longleftrightarrow>
     (if op_done p then length (op_handler_calls p) = 1 else op_handler_calls p = [])"

section \<open>The codec round trip\<close>

lemma upt8: "[0..<8] = [0,1,2,3,4,5,6,7]"
  by (simp add: upt_rec)

lemma ff_mask: "(0xFF :: 'a::len word) = mask 8"
  by (simp add: mask_eq_exp_minus_1)

lemma byte_of_mask:
  "(ucast ((ucast (w AND 0xFF :: 'a::len word)) :: byte) :: 'a word) = w AND mask 8"
  unfolding ff_mask by (rule bit_word_eqI) (auto simp: bit_simps)

lemma be_step:
  "push_bit 8 (drop_bit (k + 8) v) OR (drop_bit k v AND mask 8) = drop_bit k (v :: 'a::len word)"
proof (rule bit_word_eqI)
  fix n assume n: "n < LENGTH('a)"
  show "bit (push_bit 8 (drop_bit (k + 8) v) OR (drop_bit k v AND mask 8)) n
          = bit (drop_bit k v) n"
  proof (cases "n < 8")
    case True
    then show ?thesis using n by (simp add: bit_simps)
  next
    case False
    then have "k + 8 + (n - 8) = k + n" by simp
    with False show ?thesis using n by (simp add: bit_simps)
  qed
qed

lemma be_top64: "drop_bit 56 (v :: u64) AND mask 8 = drop_bit 56 v"
  by (rule bit_word_eqI) (auto simp: bit_simps dest: bit_imp_le_length)

lemma be_join32:
  "push_bit 24 (drop_bit 24 v AND mask 8) OR push_bit 16 (drop_bit 16 v AND mask 8) OR
   push_bit 8 (drop_bit 8 v AND mask 8) OR (v AND mask 8) = (v :: u32)"
proof (rule bit_word_eqI)
  fix n assume n: "n < LENGTH(32)"
  consider "n < 8" | "8 \<le> n" "n < 16" | "16 \<le> n" "n < 24" | "24 \<le> n" "n < 32"
    using n by fastforce
  then show "bit (push_bit 24 (drop_bit 24 v AND mask 8) OR push_bit 16 (drop_bit 16 v AND mask 8) OR
   push_bit 8 (drop_bit 8 v AND mask 8) OR (v AND mask 8)) n = bit v n"
    by cases (auto simp: bit_simps)
qed

lemma foldl_store8:
  "foldl (\<lambda>q i. q[7 - i := F i]) (a # b # c # d # e # f # g # h # r) (rev [0..<8])
     = [F 7, F 6, F 5, F 4, F 3, F 2, F 1, F 0] @ r"
  by (simp add: upt8)

lemma foldl_load8:
  "foldl (\<lambda>v i. S v ((a # b # c # d # e # f # g # h # r) ! i)) z [0..<8]
     = S (S (S (S (S (S (S (S z a) b) c) d) e) f) g) h"
  by (simp add: upt8)

lemma length_ge4E:
  assumes "4 \<le> length p"
  obtains a b c d r where "p = a # b # c # d # r"
  using assms by (auto simp: eval_nat_numeral Suc_le_length_iff)

lemma length_ge8E:
  assumes "8 \<le> length p"
  obtains a b c d e f g h r where "p = a # b # c # d # e # f # g # h # r"
  using assms by (auto simp: eval_nat_numeral Suc_le_length_iff)

lemma write_u32be_Cons:
  "write_u32be (a # b # c # d # r) v =
     ucast (drop_bit 24 v AND 0xFF) # ucast (drop_bit 16 v AND 0xFF) #
     ucast (drop_bit 8 v AND 0xFF) # ucast (v AND 0xFF) # r"
  unfolding write_u32be_def by (simp only: list_update_code One_nat_def numeral_3_eq_3 numeral_2_eq_2)

lemma read_u32be_Cons:
  "read_u32be (a # b # c # d # r) =
     push_bit 24 (ucast a) OR push_bit 16 (ucast b) OR push_bit 8 (ucast c) OR ucast d"
  unfolding read_u32be_def by (simp only: nth_Cons_0 nth_Cons_Suc One_nat_def numeral_3_eq_3 numeral_2_eq_2)

lemma read_write_u32be: "4 \<le> length p \<Longrightarrow> read_u32be (write_u32be p v) = v"
proof -
  assume "4 \<le> length p"
  then obtain a b c d r where p: "p = a # b # c # d # r" by (rule length_ge4E)
  show ?thesis
    unfolding p write_u32be_Cons read_u32be_Cons byte_of_mask
    by (rule be_join32)
qed

lemma write_u64be_Cons:
  "write_u64be (a # b # c # d # e # f # g # h # r) v =
     [ucast (drop_bit (7 * 8) v AND 0xFF), ucast (drop_bit (6 * 8) v AND 0xFF),
      ucast (drop_bit (5 * 8) v AND 0xFF), ucast (drop_bit (4 * 8) v AND 0xFF),
      ucast (drop_bit (3 * 8) v AND 0xFF), ucast (drop_bit (2 * 8) v AND 0xFF),
      ucast (drop_bit (1 * 8) v AND 0xFF), ucast (drop_bit (0 * 8) v AND 0xFF)] @ r"
  unfolding write_u64be_def by (rule foldl_store8)

lemma read_u64be_Cons:
  "read_u64be (a # b # c # d # e # f # g # h # r) =
     push_bit 8 (push_bit 8 (push_bit 8 (push_bit 8 (push_bit 8 (push_bit 8 (push_bit 8
       (push_bit 8 0 OR ucast a) OR ucast b) OR ucast c) OR ucast d) OR ucast e)
        OR ucast f) OR ucast g) OR ucast h"
  unfolding read_u64be_def by (rule foldl_load8)

lemma be_chain64:
  "push_bit 8 (push_bit 8 (push_bit 8 (push_bit 8 (push_bit 8 (push_bit 8 (push_bit 8
       (push_bit 8 0 OR (drop_bit (7 * 8) v AND mask 8)) OR (drop_bit (6 * 8) v AND mask 8))
        OR (drop_bit (5 * 8) v AND mask 8)) OR (drop_bit (4 * 8) v AND mask 8))
        OR (drop_bit (3 * 8) v AND mask 8)) OR (drop_bit (2 * 8) v AND mask 8))
        OR (drop_bit (1 * 8) v AND mask 8)) OR (drop_bit (0 * 8) v AND mask 8) = (v :: u64)"
proof -
  have s7: "push_bit 8 0 OR (drop_bit (7 * 8) v AND mask 8) = drop_bit (7 * 8) v"
    using be_top64 [of v] by simp
  have s6: "push_bit 8 (drop_bit (7 * 8) v) OR (drop_bit (6 * 8) v AND mask 8) = drop_bit (6 * 8) v"
    using be_step [of 48 v] by simp
  have s5: "push_bit 8 (drop_bit (6 * 8) v) OR (drop_bit (5 * 8) v AND mask 8) = drop_bit (5 * 8) v"
    using be_step [of 40 v] by simp
  have s4: "push_bit 8 (drop_bit (5 * 8) v) OR (drop_bit (4 * 8) v AND mask 8) = drop_bit (4 * 8) v"
    using be_step [of 32 v] by simp
  have s3: "push_bit 8 (drop_bit (4 * 8) v) OR (drop_bit (3 * 8) v AND mask 8) = drop_bit (3 * 8) v"
    using be_step [of 24 v] by simp
  have s2: "push_bit 8 (drop_bit (3 * 8) v) OR (drop_bit (2 * 8) v AND mask 8) = drop_bit (2 * 8) v"
    using be_step [of 16 v] by simp
  have s1: "push_bit 8 (drop_bit (2 * 8) v) OR (drop_bit (1 * 8) v AND mask 8) = drop_bit (1 * 8) v"
    using be_step [of 8 v] by simp
  have s0: "push_bit 8 (drop_bit (1 * 8) v) OR (drop_bit (0 * 8) v AND mask 8) = v"
    using be_step [of 0 v] by simp
  show ?thesis
    by (simp only: s7 s6 s5 s4 s3 s2 s1 s0)
qed

lemma read_write_u64be: "8 \<le> length p \<Longrightarrow> read_u64be (write_u64be p v) = v"
proof -
  assume "8 \<le> length p"
  then obtain a b c d e f g h r where p: "p = a # b # c # d # e # f # g # h # r"
    by (rule length_ge8E)
  show ?thesis
    unfolding p write_u64be_Cons append.simps read_u64be_Cons byte_of_mask
    by (rule be_chain64)
qed

lemma length_write_u64be: "length (write_u64be p v) = length p"
proof -
  have "length (foldl (\<lambda>q i. q[7 - i := F i]) q is) = length q" for F :: "nat \<Rightarrow> byte" and q "is"
    by (induction "is" arbitrary: q) simp_all
  then show ?thesis by (simp add: write_u64be_def)
qed

section \<open>Lemmas about the server session\<close>

lemma replicate14: "replicate (4 + (1 + 8 + 1)) (0::byte) = [0,0,0,0,0,0,0,0,0,0,0,0,0,0]"
  by (simp add: eval_nat_numeral)

lemma hello_ack_buf_eq:
  "hello_ack_buf ident st =
     [0, 0, 0, 10, MSG_HELLO_ACK] @ write_u64be [0,0,0,0,0,0,0,0] ident @ [st]"
proof -
  define F :: "nat \<Rightarrow> byte" where "F i = ucast (drop_bit (i * 8) ident AND 0xFF)" for i
  have w: "write_u64be (a # b # c # d # e # f # g # h # r) ident
            = [F 7, F 6, F 5, F 4, F 3, F 2, F 1, F 0] @ r" for a b c d e f g h r
    unfolding F_def by (rule write_u64be_Cons)
  show ?thesis
    unfolding hello_ack_buf_def Let_def replicate14
    by (simp add: w write_u32be_def)
qed

lemma length_hello_ack_buf: "length (hello_ack_buf ident st) = 14"
  by (simp add: hello_ack_buf_eq length_write_u64be)

lemma hello_ack_buf_fields:
  "read_u32be (hello_ack_buf ident st) = 10 \<and>
   hello_ack_buf ident st ! 4 = MSG_HELLO_ACK \<and>
   read_u64be (drop 5 (hello_ack_buf ident st)) = ident \<and>
   hello_ack_buf ident st ! 13 = st"
proof -
  obtain a b c d e f g h where
    w: "write_u64be [0,0,0,0,0,0,0,0] ident = [a, b, c, d, e, f, g, h]"
    by (simp add: write_u64be_Cons)
  have "read_u64be (write_u64be [0,0,0,0,0,0,0,0] ident) = ident"
    by (rule read_write_u64be) simp
  then have r: "read_u64be [a, b, c, d, e, f, g, h] = ident"
    by (simp only: w)
  have r': "read_u64be ([a, b, c, d, e, f, g, h] @ [st]) = read_u64be [a, b, c, d, e, f, g, h]"
    by (simp only: read_u64be_Cons append.simps)
  show ?thesis
    unfolding hello_ack_buf_eq w
    using r r' by (simp add: read_u32be_def)
qed

lemma hello_ack_buf_42: "hello_ack_buf 42 0 = [0,0,0,10,0x81,0,0,0,0,0,0,0,42,0]"
  by (simp add: hello_ack_buf_eq MSG_HELLO_ACK_def write_u64be_def upt8)

lemmas prim_defs = io_def refresh_timer_def cancel_timer_def fail_and_close_def
  read_len_def read_body_def do_write_def

lemma handle_message_hello:
  "9 \<le> length (body s) \<Longrightarrow> body s ! 0 = MSG_HELLO \<Longrightarrow>
   handle_message s = enqueue_write (hello_ack_buf (read_u64be (drop 1 (body s))) 0) (cancel_timer s)"
  by (auto simp: handle_message_def send_hello_ack_def Let_def cancel_timer_def io_def)

lemma handle_message_other:
  "9 \<le> length (body s) \<Longrightarrow> body s ! 0 \<noteq> MSG_HELLO \<Longrightarrow>
   handle_message s = enqueue_write (hello_ack_buf (read_u64be (drop 1 (body s))) 1) (cancel_timer s)"
  by (auto simp: handle_message_def send_hello_ack_def Let_def cancel_timer_def io_def)

lemma handle_message_short:
  "length (body s) < 9 \<Longrightarrow> handle_message s = cancel_timer s"
  by (auto simp: handle_message_def send_hello_ack_def Let_def cancel_timer_def io_def)

lemma enqueue_write_fits:
  "pending_bytes s + word_of_nat (length buf) \<le> max_write_queue_bytes (cfg s) \<Longrightarrow>
   write_queue (enqueue_write buf s) = write_queue s @ [buf] \<and>
   pending_bytes (enqueue_write buf s) = pending_bytes s + word_of_nat (length buf) \<and>
   closed (enqueue_write buf s) = closed s \<and>
   socket_open (enqueue_write buf s) = socket_open s \<and>
   close_reason (enqueue_write buf s) = close_reason s \<and>
   io_log (enqueue_write buf s) =
     io_log s @ (if write_queue s = [] then [Timer_expires_after, Async_write buf] else [])"
  by (auto simp: enqueue_write_def Let_def prim_defs not_less split: list.splits)

lemma enqueue_write_overflow:
  "max_write_queue_bytes (cfg s) < pending_bytes s + word_of_nat (length buf) \<Longrightarrow>
   enqueue_write buf s =
     fail_and_close no_buffer_space (s\<lparr>pending_bytes := pending_bytes s + word_of_nat (length buf)\<rparr>)"
  by (simp add: enqueue_write_def Let_def)


lemma closed_fail_and_close: "closed (fail_and_close ec s)"
  by (simp add: prim_defs)

lemmas handler_defs = on_read_len_def on_read_body_def on_timer_def handle_message_def
  send_hello_ack_def enqueue_write_def start_def




lemma queued_bytes_simps [simp]:
  "queued_bytes [] = 0"
  "queued_bytes (b # q) = length b + queued_bytes q"
  "queued_bytes (q @ r) = queued_bytes q + queued_bytes r"
  by (simp_all add: queued_bytes_def)









lemma unat_eq_length_word: "unat (n :: size_t) = k \<Longrightarrow> word_of_nat k = n"
  by auto





lemma cfg_deliver: "deliver e s = Some s' \<Longrightarrow> cfg s' = cfg s"
  by (cases e)
     (auto simp: handler_defs prim_defs on_write_def Let_def split: if_splits list.splits)

lemma cfg_run: "run es s = Some s' \<Longrightarrow> cfg s' = cfg s"
  by (induction es arbitrary: s) (auto split: option.splits dest: cfg_deliver)













lemma unat_ucast_u32: "unat (ucast (l :: u32) :: size_t) = unat l"
proof -
  have "unat l < 2 ^ 32"
    using unsigned_less [of l] by simp
  then have "unat l < 2 ^ 64"
    by simp
  then show ?thesis
    by (simp add: unsigned_ucast_eq take_bit_nat_eq_self)
qed

lemma ucast_less_size_t: "((m :: size_t) < ucast (l :: u32)) = (unat m < unat l)"
  by (simp add: word_less_nat_alt unat_ucast_u32)

lemma unat_eq_0_u32: "(l = (0 :: u32)) = (unat l = 0)"
  by (simp add: unat_eq_0)

lemma read_u64be_take8: "8 \<le> length p \<Longrightarrow> read_u64be (take 8 p) = read_u64be p"
proof -
  assume "8 \<le> length p"
  then obtain a b c d e f g h r where p: "p = a # b # c # d # e # f # g # h # r"
    by (rule length_ge8E)
  have t: "take 8 p = [a, b, c, d, e, f, g, h]"
    unfolding p by (simp add: eval_nat_numeral)
  show ?thesis
    unfolding t unfolding p by (simp only: read_u64be_Cons)
qed

lemma read_u64be_written:
  "length z = 8 \<Longrightarrow> read_u64be (write_u64be z v @ r) = v"
proof -
  assume z: "length z = 8"
  then have l: "8 \<le> length (write_u64be z v @ r)"
    by (simp add: length_write_u64be)
  have "read_u64be (write_u64be z v @ r) = read_u64be (take 8 (write_u64be z v @ r))"
    using l by (rule read_u64be_take8 [symmetric])
  also have "take 8 (write_u64be z v @ r) = write_u64be z v"
    using z by (simp add: length_write_u64be)
  also have "read_u64be (write_u64be z v) = v"
    using z by (intro read_write_u64be) simp
  finally show ?thesis .
qed

lemma hello_ack_buf_7: "hello_ack_buf 7 1 = [0, 0, 0, 10, 0x81, 0, 0, 0, 0, 0, 0, 0, 7, 1]"
  by (simp add: hello_ack_buf_eq MSG_HELLO_ACK_def write_u64be_def upt8)

lemma unat_add_fits:
  fixes p m :: size_t
  assumes "unat p + k \<le> unat m"
  shows "unat (p + word_of_nat k) = unat p + k"
proof -
  have "unat m < 2 ^ 64"
    using unsigned_less [of m] by simp
  with assms have b: "unat p + k < 2 ^ 64"
    by simp
  then have k: "unat (word_of_nat k :: size_t) = k"
    by (simp add: unat_of_nat)
  have "unat p + unat (word_of_nat k :: size_t) < 2 ^ LENGTH(64)"
    using b k by simp
  then show ?thesis
    using k by (simp add: unat_add_lem [THEN iffD1])
qed

lemma cfg_enqueue_write: "cfg (enqueue_write buf s) = cfg s"
  by (simp add: enqueue_write_def Let_def prim_defs split: list.splits)

lemma enqueue_all_fits:
  "\<not> closed s \<Longrightarrow>
   unat (pending_bytes s) + queued_bytes bufs \<le> unat (max_write_queue_bytes (cfg s)) \<Longrightarrow>
   \<not> closed (foldl (\<lambda>t b. enqueue_write b t) s bufs) \<and>
   write_queue (foldl (\<lambda>t b. enqueue_write b t) s bufs) = write_queue s @ bufs \<and>
   unat (pending_bytes (foldl (\<lambda>t b. enqueue_write b t) s bufs))
     = unat (pending_bytes s) + queued_bytes bufs"
proof (induction bufs arbitrary: s)
  case Nil
  then show ?case by simp
next
  case (Cons b bufs)
  have u: "unat (pending_bytes s + word_of_nat (length b)) = unat (pending_bytes s) + length b"
    using Cons.prems(2)
    by (intro unat_add_fits [where m = "max_write_queue_bytes (cfg s)"]) simp
  then have le: "pending_bytes s + word_of_nat (length b) \<le> max_write_queue_bytes (cfg s)"
    using Cons.prems(2) by (simp add: word_le_nat_alt)
  note f = enqueue_write_fits [OF le]
  have c: "\<not> closed (enqueue_write b s)"
    using f Cons.prems(1) by simp
  have p: "unat (pending_bytes (enqueue_write b s)) + queued_bytes bufs
            \<le> unat (max_write_queue_bytes (cfg (enqueue_write b s)))"
    using f u Cons.prems(2) by (simp add: cfg_enqueue_write)
  from Cons.IH [OF c p] f u show ?case
    by simp
qed


lemma enqueue_write_unsplit: "enqueue_write buf s = enqueue_write_store (pending_bytes s) buf s"
  by (simp add: enqueue_write_def enqueue_write_store_def)


section \<open>Lemmas about the client operations\<close>

lemmas op_defs = op_io_def cl_io_def invoke_def op_cancel_timer_def timer_handler_def
  op_close_socket_def

lemmas connect_defs = connect_on_timeout_def on_connected_def on_resolved_def

lemmas handshake_defs = handshake_on_timeout_def on_hello_written_def on_ack_len_def
  on_ack_body_def

lemma once_inv_connect:
  "once_inv p \<Longrightarrow> deliver_connect e p = Some p' \<Longrightarrow> once_inv p'"
  by (cases e) (auto simp: once_inv_def connect_defs op_defs Let_def split: if_splits)

lemma ended_connect:
  "op_stage p = Connect_ended \<longrightarrow> op_done p \<Longrightarrow> deliver_connect e p = Some p' \<Longrightarrow>
   op_stage p' = Connect_ended \<longrightarrow> op_done p'"
  by (cases e) (auto simp: connect_defs op_defs Let_def split: if_splits)

lemma connect_run_inv:
  "once_inv p \<Longrightarrow> op_stage p = Connect_ended \<longrightarrow> op_done p \<Longrightarrow>
   run_connect es p = Some p' \<Longrightarrow>
   once_inv p' \<and> (op_stage p' = Connect_ended \<longrightarrow> op_done p')"
proof (induction es arbitrary: p)
  case Nil
  then show ?case by simp
next
  case (Cons e es)
  from Cons.prems(3) obtain q where q: "deliver_connect e p = Some q"
    and r: "run_connect es q = Some p'"
    by (auto split: option.splits)
  have "once_inv q"
    using Cons.prems(1) q by (rule once_inv_connect)
  moreover have "op_stage q = Connect_ended \<longrightarrow> op_done q"
    using Cons.prems(2) q by (rule ended_connect)
  ultimately show ?case
    using r by (rule Cons.IH)
qed

lemma connect_done_stays:
  "op_done p \<Longrightarrow> deliver_connect e p = Some p' \<Longrightarrow>
   op_done p' \<and> op_handler_calls p' = op_handler_calls p \<and>
   cl_log (op_self p') = cl_log (op_self p) \<and>
   cl_socket_open (op_self p') = cl_socket_open (op_self p)"
  by (cases e) (auto simp: connect_defs op_defs Let_def split: if_splits)

lemma connect_done_run:
  "op_done p \<Longrightarrow> run_connect es p = Some p' \<Longrightarrow>
   op_done p' \<and> op_handler_calls p' = op_handler_calls p \<and>
   cl_log (op_self p') = cl_log (op_self p) \<and>
   cl_socket_open (op_self p') = cl_socket_open (op_self p)"
proof (induction es arbitrary: p)
  case Nil
  then show ?case by simp
next
  case (Cons e es)
  from Cons.prems(2) obtain q where q: "deliver_connect e p = Some q"
    and r: "run_connect es q = Some p'"
    by (auto split: option.splits)
  note s = connect_done_stays [OF Cons.prems(1) q]
  from s have "op_done q" by simp
  from Cons.IH [OF this r] s show ?case by simp
qed

lemma once_inv_handshake:
  "once_inv p \<Longrightarrow> deliver_handshake cid e p = Some p' \<Longrightarrow> once_inv p'"
  by (cases e) (auto simp: once_inv_def handshake_defs op_defs Let_def split: if_splits)

lemma ended_handshake:
  "op_stage p = Handshake_ended \<longrightarrow> op_done p \<Longrightarrow> deliver_handshake cid e p = Some p' \<Longrightarrow>
   op_stage p' = Handshake_ended \<longrightarrow> op_done p'"
  by (cases e) (auto simp: handshake_defs op_defs Let_def split: if_splits)

lemma handshake_run_inv:
  "once_inv p \<Longrightarrow> op_stage p = Handshake_ended \<longrightarrow> op_done p \<Longrightarrow>
   run_handshake cid es p = Some p' \<Longrightarrow>
   once_inv p' \<and> (op_stage p' = Handshake_ended \<longrightarrow> op_done p')"
proof (induction es arbitrary: p)
  case Nil
  then show ?case by simp
next
  case (Cons e es)
  from Cons.prems(3) obtain q where q: "deliver_handshake cid e p = Some q"
    and r: "run_handshake cid es q = Some p'"
    by (auto split: option.splits)
  have "once_inv q"
    using Cons.prems(1) q by (rule once_inv_handshake)
  moreover have "op_stage q = Handshake_ended \<longrightarrow> op_done q"
    using Cons.prems(2) q by (rule ended_handshake)
  ultimately show ?case
    using r by (rule Cons.IH)
qed

lemma handshake_done_stays:
  "op_done p \<Longrightarrow> deliver_handshake cid e p = Some p' \<Longrightarrow>
   op_done p' \<and> op_handler_calls p' = op_handler_calls p \<and>
   cl_log (op_self p') = cl_log (op_self p)"
  by (cases e) (auto simp: handshake_defs op_defs Let_def split: if_splits)

lemma once_inv_async_connect: "once_inv (async_connect a)"
  by (simp add: once_inv_def async_connect_def)

lemma once_inv_async_handshake: "once_inv (async_handshake cid a)"
  by (simp add: once_inv_def async_handshake_def)

lemmas client_eval = async_connect_def async_handshake_def AsyncClient_new_def connect_defs
  handshake_defs op_defs Let_def

lemma connect_example:
  "\<exists>p pt pc. run_connect [Resolved Success] (async_connect AsyncClient_new) = Some p \<and>
     \<not> op_done p \<and> op_stage p = Connecting \<and>
     deliver_connect (Connect_timer Success) p = Some pt \<and>
     op_stage pt = Connecting \<and>
     deliver_connect (Connected Success) p = Some pc \<and>
     op_timer_wait pc"
  by (simp add: client_eval)

lemma handshake_example:
  "\<exists>q qt qb. run_handshake 42 [Hello_written Success, Ack_len Success [0, 0, 0, 10]]
            (async_handshake 42 AsyncClient_new) = Some q \<and>
     \<not> op_done q \<and> op_stage q = Reading_body \<and> length (cl_body (op_self q)) = 10 \<and>
     deliver_handshake 42 (Handshake_timer Success) q = Some qt \<and>
     op_stage qt = Reading_body \<and> length (cl_body (op_self qt)) = 10 \<and>
     deliver_handshake 42 (Ack_body Success [0x81, 0, 0, 0, 0, 0, 0, 0, 42, 0]) q = Some qb \<and>
     op_handler_calls qb = [(Success, 42, 0)]"
  by (simp add: client_eval read_u32be_def kMax_def resize_def read_u64be_def upt8
        MSG_HELLO_ACK_def)

lemma run_connect_snoc:
  "run_connect es p = Some q \<Longrightarrow> deliver_connect e q = Some q' \<Longrightarrow>
   run_connect (es @ [e]) p = Some q'"
  by (induction es arbitrary: p) (auto split: option.splits)

lemma run_handshake_snoc:
  "run_handshake cid es p = Some q \<Longrightarrow> deliver_handshake cid e q = Some q' \<Longrightarrow>
   run_handshake cid (es @ [e]) p = Some q'"
  by (induction es arbitrary: p) (auto split: option.splits)

section \<open>The claims\<close>

text \<open>
  Claim C1. A session waits for a length prefix and its 4 bytes arrive without error; they
  decode to \<open>L\<close>. If \<open>L\<close> is 0 or greater than \<open>max_frame\<close>, the handler calls
  \<^verbatim>\<open>fail_and_close\<close> with \<open>message_size\<close>: the session is closed afterwards, no body read
  is started, and a session that was open has its socket shut down and closed for that
  reason. If \<open>0 < L \<le> max_frame\<close>, nothing is closed, \<open>body\<close> is resized to \<open>L\<close> bytes
  and one read of exactly \<open>L\<close> bytes is started, which completes with \<open>L\<close> bytes only.
\<close>

theorem length_prefix_is_validated:
  assumes "reading s = Read_len" and "length bytes = 4"
  shows "\<exists>s'. deliver (Len_read Success bytes) s = Some s' \<and>
     (unat (read_u32be bytes) = 0 \<or> unat (max_frame (cfg s)) < unat (read_u32be bytes) \<longrightarrow>
        s' = fail_and_close message_size (s\<lparr>lenbuf := bytes, reading := No_read\<rparr>) \<and>
        closed s' \<and> reading s' = No_read \<and> body s' = body s \<and>
        (\<not> closed s \<longrightarrow>
           close_reason s' = Some message_size \<and> \<not> socket_open s' \<and>
           io_log s' = io_log s @ [Timer_cancel, Socket_shutdown, Socket_close])) \<and>
     (0 < unat (read_u32be bytes) \<and> unat (read_u32be bytes) \<le> unat (max_frame (cfg s)) \<longrightarrow>
        closed s' = closed s \<and> socket_open s' = socket_open s \<and>
        close_reason s' = close_reason s \<and>
        reading s' = Read_body \<and> length (body s') = unat (read_u32be bytes) \<and>
        io_log s' = io_log s @ [Timer_expires_after, Async_read (unat (read_u32be bytes))] \<and>
        (\<forall>ec data. deliver (Body_read ec data) s' \<noteq> None
            \<longleftrightarrow> length data = unat (read_u32be bytes)))"
  using assms
  by (auto simp: on_read_len_def Let_def prim_defs resize_def ucast_less_size_t unat_eq_0_u32
                 not_less)

text \<open>
  Claim C1 at the default configuration (\<open>max_frame\<close> of 1 MiB): a prefix of 9 is accepted
  and a prefix of 2 MiB closes the session with \<open>message_size\<close>.
\<close>

theorem length_prefix_is_validated_witness:
  "reading (start (Session_new (default_config 1))) = Read_len \<and>
   unat (read_u32be [0, 0, 0, 9]) = 9 \<and>
   unat (read_u32be [0, 0x20, 0, 0]) = 2097152 \<and>
   unat (max_frame (cfg (start (Session_new (default_config 1))))) = 1048576 \<and>
   (\<exists>s'. deliver (Len_read Success [0, 0, 0, 9]) (start (Session_new (default_config 1)))
            = Some s' \<and>
         \<not> closed s' \<and> reading s' = Read_body \<and> length (body s') = 9) \<and>
   (\<exists>s'. deliver (Len_read Success [0, 0x20, 0, 0]) (start (Session_new (default_config 1)))
            = Some s' \<and>
         closed s' \<and> close_reason s' = Some message_size \<and> reading s' = No_read)"
proof -
  let ?S = "start (Session_new (default_config 1))"
  have a: "reading ?S = Read_len" and c: "\<not> closed ?S"
    and m: "unat (max_frame (cfg ?S)) = 1048576"
    by (simp_all add: start_def Session_new_def default_config_def prim_defs)
  have l1: "unat (read_u32be [0, 0, 0, 9]) = 9"
    and l2: "unat (read_u32be [0, 0x20, 0, 0]) = 2097152"
    by (simp_all add: read_u32be_def)
  have n1: "length [0, 0, 0, 9 :: byte] = 4" and n2: "length [0, 0x20, 0, 0 :: byte] = 4"
    by simp_all
  from length_prefix_is_validated [OF a n1] obtain s1
    where d1: "deliver (Len_read Success [0, 0, 0, 9]) ?S = Some s1"
      and i1: "0 < unat (read_u32be [0, 0, 0, 9]) \<and>
               unat (read_u32be [0, 0, 0, 9]) \<le> unat (max_frame (cfg ?S)) \<longrightarrow>
               closed s1 = closed ?S \<and> socket_open s1 = socket_open ?S \<and>
               close_reason s1 = close_reason ?S \<and> reading s1 = Read_body \<and>
               length (body s1) = unat (read_u32be [0, 0, 0, 9]) \<and>
               io_log s1 = io_log ?S @ [Timer_expires_after, Async_read (unat (read_u32be [0, 0, 0, 9]))] \<and>
               (\<forall>ec data. deliver (Body_read ec data) s1 \<noteq> None
                  \<longleftrightarrow> length data = unat (read_u32be [0, 0, 0, 9]))"
    by blast
  have "0 < unat (read_u32be [0, 0, 0, 9]) \<and>
        unat (read_u32be [0, 0, 0, 9]) \<le> unat (max_frame (cfg ?S))"
    unfolding l1 m by simp
  with i1 have "closed s1 = closed ?S \<and> reading s1 = Read_body \<and>
      length (body s1) = unat (read_u32be [0, 0, 0, 9])"
    by blast
  with c l1 have r1: "\<not> closed s1 \<and> reading s1 = Read_body \<and> length (body s1) = 9"
    by simp
  from length_prefix_is_validated [OF a n2] obtain s2
    where d2: "deliver (Len_read Success [0, 0x20, 0, 0]) ?S = Some s2"
      and i2: "unat (read_u32be [0, 0x20, 0, 0]) = 0 \<or>
               unat (max_frame (cfg ?S)) < unat (read_u32be [0, 0x20, 0, 0]) \<longrightarrow>
               s2 = fail_and_close message_size (?S\<lparr>lenbuf := [0, 0x20, 0, 0], reading := No_read\<rparr>) \<and>
               closed s2 \<and> reading s2 = No_read \<and> body s2 = body ?S \<and>
               (\<not> closed ?S \<longrightarrow>
                  close_reason s2 = Some message_size \<and> \<not> socket_open s2 \<and>
                  io_log s2 = io_log ?S @ [Timer_cancel, Socket_shutdown, Socket_close])"
    by blast
  have "unat (read_u32be [0, 0x20, 0, 0]) = 0 \<or>
        unat (max_frame (cfg ?S)) < unat (read_u32be [0, 0x20, 0, 0])"
    unfolding l2 m by simp
  with i2 c have r2: "closed s2 \<and> close_reason s2 = Some message_size \<and> reading s2 = No_read"
    by blast
  from d1 r1 d2 r2 a l1 l2 m show ?thesis
    by blast
qed

text \<open>
  Claim C2. A body of at least 9 bytes whose first byte is 0x01 makes \<open>handle_message\<close>
  read the id from bytes 1 to 8, big-endian, and pass to \<open>enqueue_write\<close> the 14-byte frame
  with length prefix 10, type 0x81, that id and status 0; the frame is appended to the write
  queue when the queue budget allows it. For id 42 the frame's body is
  \<open>[0x81, 0, 0, 0, 0, 0, 0, 0, 42, 0]\<close>.
\<close>

theorem hello_is_acknowledged:
  assumes "9 \<le> length (body s)" and "body s ! 0 = 0x01"
  shows "handle_message s =
           enqueue_write (hello_ack_buf (read_u64be (take 8 (drop 1 (body s)))) 0)
             (cancel_timer s) \<and>
         length (hello_ack_buf ident 0) = 4 + 10 \<and>
         read_u32be (hello_ack_buf ident 0) = 10 \<and>
         hello_ack_buf ident 0 ! 4 = 0x81 \<and>
         read_u64be (drop 5 (hello_ack_buf ident 0)) = ident \<and>
         hello_ack_buf ident 0 ! 13 = 0 \<and>
         (pending_bytes s + 14 \<le> max_write_queue_bytes (cfg s) \<longrightarrow>
            write_queue (handle_message s) =
              write_queue s @ [hello_ack_buf (read_u64be (take 8 (drop 1 (body s)))) 0]) \<and>
         (drop 1 (body s) = write_u64be [0, 0, 0, 0, 0, 0, 0, 0] v @ r \<longrightarrow>
            read_u64be (take 8 (drop 1 (body s))) = v) \<and>
         drop 4 (hello_ack_buf 42 0) = [0x81, 0, 0, 0, 0, 0, 0, 0, 42, 0]"
proof -
  have l: "8 \<le> length (drop 1 (body s))"
    using assms(1) by simp
  have h: "handle_message s =
             enqueue_write (hello_ack_buf (read_u64be (take 8 (drop 1 (body s)))) 0)
               (cancel_timer s)"
    unfolding read_u64be_take8 [OF l]
    using assms by (simp add: handle_message_hello MSG_HELLO_def)
  have q: "write_queue (handle_message s) =
             write_queue s @ [hello_ack_buf (read_u64be (take 8 (drop 1 (body s)))) 0]"
    if "pending_bytes s + 14 \<le> max_write_queue_bytes (cfg s)"
    unfolding h using that
    by (simp add: enqueue_write_fits length_hello_ack_buf prim_defs)
  have v: "read_u64be (take 8 (drop 1 (body s))) = v"
    if "drop 1 (body s) = write_u64be [0, 0, 0, 0, 0, 0, 0, 0] v @ r"
  proof -
    have "read_u64be (take 8 (drop 1 (body s))) = read_u64be (drop 1 (body s))"
      using l by (rule read_u64be_take8)
    also have "\<dots> = read_u64be (write_u64be [0, 0, 0, 0, 0, 0, 0, 0] v @ r)"
      by (simp only: that)
    also have "\<dots> = v"
      by (rule read_u64be_written) simp
    finally show ?thesis .
  qed
  show ?thesis
    using h q v hello_ack_buf_fields [of ident 0]
    by (simp add: length_hello_ack_buf hello_ack_buf_42 MSG_HELLO_ACK_def)
qed

text \<open>
  Claim C2 at a HELLO with id 42 received by a fresh session.
\<close>

theorem hello_is_acknowledged_witness:
  "9 \<le> length (body ((Session_new (default_config 1))\<lparr>body := [1, 0, 0, 0, 0, 0, 0, 0, 42]\<rparr>)) \<and>
   body ((Session_new (default_config 1))\<lparr>body := [1, 0, 0, 0, 0, 0, 0, 0, 42]\<rparr>) ! 0 = 0x01 \<and>
   pending_bytes ((Session_new (default_config 1))\<lparr>body := [1, 0, 0, 0, 0, 0, 0, 0, 42]\<rparr>) + 14
     \<le> max_write_queue_bytes (cfg ((Session_new (default_config 1))
                                     \<lparr>body := [1, 0, 0, 0, 0, 0, 0, 0, 42]\<rparr>)) \<and>
   drop 1 (body ((Session_new (default_config 1))\<lparr>body := [1, 0, 0, 0, 0, 0, 0, 0, 42]\<rparr>))
     = write_u64be [0, 0, 0, 0, 0, 0, 0, 0] 42 @ [] \<and>
   write_queue (handle_message
       ((Session_new (default_config 1))\<lparr>body := [1, 0, 0, 0, 0, 0, 0, 0, 42]\<rparr>))
     = [ [0, 0, 0, 10, 0x81, 0, 0, 0, 0, 0, 0, 0, 42, 0] ]"
proof -
  let ?S = "(Session_new (default_config 1))\<lparr>body := [1, 0, 0, 0, 0, 0, 0, 0, 42]\<rparr>"
  have b: "write_u64be [0, 0, 0, 0, 0, 0, 0, 0] 42 = [0, 0, 0, 0, 0, 0, 0, 42]"
    by (simp add: write_u64be_def upt8)
  have a1: "9 \<le> length (body ?S)" and a2: "body ?S ! 0 = 0x01"
    by simp_all
  have a3: "pending_bytes ?S + 14 \<le> max_write_queue_bytes (cfg ?S)"
    by (simp add: Session_new_def default_config_def)
  have a4: "drop 1 (body ?S) = write_u64be [0, 0, 0, 0, 0, 0, 0, 0] 42 @ []"
    by (simp add: b)
  have wq: "write_queue ?S = []"
    by (simp add: Session_new_def)
  note T = hello_is_acknowledged [OF a1 a2, of 42 42 "[]"]
  from T a3 have q: "write_queue (handle_message ?S) =
      write_queue ?S @ [hello_ack_buf (read_u64be (take 8 (drop 1 (body ?S)))) 0]"
    by blast
  from T a4 have v: "read_u64be (take 8 (drop 1 (body ?S))) = 42"
    by blast
  have "write_queue (handle_message ?S) = [ [0, 0, 0, 10, 0x81, 0, 0, 0, 0, 0, 0, 0, 42, 0] ]"
    unfolding q v wq hello_ack_buf_42 by simp
  with a1 a2 a3 a4 show ?thesis
    by blast
qed

text \<open>
  Claim C3 as stated fails. For the 11-byte body \<open>[0x02, id = 7, 0xAA, 0xBB]\<close> the last 8
  bytes of the body decode to \<open>0x07AABB\<close>, but the reply echoes 7: the id is read from the 8
  bytes after the type byte, not from the end of the body.
\<close>

theorem trailing_bytes_counterexample:
  "9 \<le> length [2, 0, 0, 0, 0, 0, 0, 0, 7, 0xAA, 0xBB :: byte] \<and>
   [2, 0, 0, 0, 0, 0, 0, 0, 7, 0xAA, 0xBB :: byte] ! 0 \<noteq> 0x01 \<and>
   trailing_8_bytes [2, 0, 0, 0, 0, 0, 0, 0, 7, 0xAA, 0xBB] = [0, 0, 0, 0, 0, 7, 0xAA, 0xBB] \<and>
   read_u64be (trailing_8_bytes [2, 0, 0, 0, 0, 0, 0, 0, 7, 0xAA, 0xBB]) = 0x07AABB \<and>
   write_queue (handle_message
       ((Session_new (default_config 1))\<lparr>body := [2, 0, 0, 0, 0, 0, 0, 0, 7, 0xAA, 0xBB]\<rparr>))
     = [hello_ack_buf 7 1] \<and>
   write_queue (handle_message
       ((Session_new (default_config 1))\<lparr>body := [2, 0, 0, 0, 0, 0, 0, 0, 7, 0xAA, 0xBB]\<rparr>))
     \<noteq> [hello_ack_buf (read_u64be (trailing_8_bytes [2, 0, 0, 0, 0, 0, 0, 0, 7, 0xAA, 0xBB])) 1]"
proof -
  let ?B = "[2, 0, 0, 0, 0, 0, 0, 0, 7, 0xAA, 0xBB :: byte]"
  let ?S = "(Session_new (default_config 1))\<lparr>body := ?B\<rparr>"
  have t: "trailing_8_bytes ?B = [0, 0, 0, 0, 0, 7, 0xAA, 0xBB]"
    by (simp add: trailing_8_bytes_def)
  have r: "read_u64be [0, 0, 0, 0, 0, 7, 0xAA, 0xBB] = 0x07AABB"
    by (simp add: read_u64be_def upt8)
  have i: "read_u64be (drop 1 ?B) = 7"
    by (simp add: read_u64be_def upt8)
  have "handle_message ?S = enqueue_write (hello_ack_buf (read_u64be (drop 1 (body ?S))) 1)
          (cancel_timer ?S)"
    by (rule handle_message_other) (simp_all add: MSG_HELLO_def)
  then have h: "handle_message ?S = enqueue_write (hello_ack_buf 7 1) (cancel_timer ?S)"
    using i by simp
  have q: "write_queue (handle_message ?S) = [hello_ack_buf 7 1]"
    unfolding h
    by (simp add: enqueue_write_fits length_hello_ack_buf prim_defs Session_new_def
          default_config_def)
  have "read_u64be (drop 5 (hello_ack_buf 7 1)) \<noteq> read_u64be (drop 5 (hello_ack_buf 0x07AABB 1))"
    using hello_ack_buf_fields [of 7 1] hello_ack_buf_fields [of "0x07AABB" 1] by simp
  then have n: "hello_ack_buf 7 1 \<noteq> hello_ack_buf 0x07AABB 1"
    by auto
  show ?thesis
    unfolding q t r using n by simp
qed

text \<open>
  Claim C3, amended. A body of at least 9 bytes whose first byte is not 0x01 makes
  \<open>handle_message\<close> read the id from bytes 1 to 8 (the 8 bytes after the type byte),
  big-endian, and pass to \<open>enqueue_write\<close> the HELLO_ACK frame with that id and status 1;
  any bytes after byte 8 are ignored.
\<close>

theorem unknown_type_is_acknowledged:
  assumes "9 \<le> length (body s)" and "body s ! 0 \<noteq> 0x01"
  shows "handle_message s =
           enqueue_write (hello_ack_buf (read_u64be (take 8 (drop 1 (body s)))) 1)
             (cancel_timer s) \<and>
         length (hello_ack_buf ident 1) = 4 + 10 \<and>
         read_u32be (hello_ack_buf ident 1) = 10 \<and>
         hello_ack_buf ident 1 ! 4 = 0x81 \<and>
         read_u64be (drop 5 (hello_ack_buf ident 1)) = ident \<and>
         hello_ack_buf ident 1 ! 13 = 1 \<and>
         (pending_bytes s + 14 \<le> max_write_queue_bytes (cfg s) \<longrightarrow>
            write_queue (handle_message s) =
              write_queue s @ [hello_ack_buf (read_u64be (take 8 (drop 1 (body s)))) 1]) \<and>
         (drop 1 (body s) = write_u64be [0, 0, 0, 0, 0, 0, 0, 0] v @ r \<longrightarrow>
            read_u64be (take 8 (drop 1 (body s))) = v)"
proof -
  have l: "8 \<le> length (drop 1 (body s))"
    using assms(1) by simp
  have h: "handle_message s =
             enqueue_write (hello_ack_buf (read_u64be (take 8 (drop 1 (body s)))) 1)
               (cancel_timer s)"
    unfolding read_u64be_take8 [OF l]
    using assms by (simp add: handle_message_other MSG_HELLO_def)
  have q: "write_queue (handle_message s) =
             write_queue s @ [hello_ack_buf (read_u64be (take 8 (drop 1 (body s)))) 1]"
    if "pending_bytes s + 14 \<le> max_write_queue_bytes (cfg s)"
    unfolding h using that
    by (simp add: enqueue_write_fits length_hello_ack_buf prim_defs)
  have v: "read_u64be (take 8 (drop 1 (body s))) = v"
    if "drop 1 (body s) = write_u64be [0, 0, 0, 0, 0, 0, 0, 0] v @ r"
  proof -
    have "read_u64be (take 8 (drop 1 (body s))) = read_u64be (drop 1 (body s))"
      using l by (rule read_u64be_take8)
    also have "\<dots> = read_u64be (write_u64be [0, 0, 0, 0, 0, 0, 0, 0] v @ r)"
      by (simp only: that)
    also have "\<dots> = v"
      by (rule read_u64be_written) simp
    finally show ?thesis .
  qed
  show ?thesis
    using h q v hello_ack_buf_fields [of ident 1]
    by (simp add: length_hello_ack_buf MSG_HELLO_ACK_def)
qed

text \<open>
  Claim C3, amended, at the body \<open>[0x02, id = 7, 0xAA, 0xBB]\<close> received by a fresh
  session: the reply echoes 7 with status 1.
\<close>

theorem unknown_type_is_acknowledged_witness:
  "9 \<le> length (body ((Session_new (default_config 1))
                        \<lparr>body := [2, 0, 0, 0, 0, 0, 0, 0, 7, 0xAA, 0xBB]\<rparr>)) \<and>
   body ((Session_new (default_config 1))
           \<lparr>body := [2, 0, 0, 0, 0, 0, 0, 0, 7, 0xAA, 0xBB]\<rparr>) ! 0 \<noteq> 0x01 \<and>
   pending_bytes ((Session_new (default_config 1))
                    \<lparr>body := [2, 0, 0, 0, 0, 0, 0, 0, 7, 0xAA, 0xBB]\<rparr>) + 14
     \<le> max_write_queue_bytes (cfg ((Session_new (default_config 1))
                                     \<lparr>body := [2, 0, 0, 0, 0, 0, 0, 0, 7, 0xAA, 0xBB]\<rparr>)) \<and>
   drop 1 (body ((Session_new (default_config 1))
                   \<lparr>body := [2, 0, 0, 0, 0, 0, 0, 0, 7, 0xAA, 0xBB]\<rparr>))
     = write_u64be [0, 0, 0, 0, 0, 0, 0, 0] 7 @ [0xAA, 0xBB] \<and>
   write_queue (handle_message
       ((Session_new (default_config 1))\<lparr>body := [2, 0, 0, 0, 0, 0, 0, 0, 7, 0xAA, 0xBB]\<rparr>))
     = [ [0, 0, 0, 10, 0x81, 0, 0, 0, 0, 0, 0, 0, 7, 1] ]"
proof -
  let ?S = "(Session_new (default_config 1))\<lparr>body := [2, 0, 0, 0, 0, 0, 0, 0, 7, 0xAA, 0xBB]\<rparr>"
  have b: "write_u64be [0, 0, 0, 0, 0, 0, 0, 0] 7 = [0, 0, 0, 0, 0, 0, 0, 7]"
    by (simp add: write_u64be_def upt8)
  have a1: "9 \<le> length (body ?S)" and a2: "body ?S ! 0 \<noteq> 0x01"
    by simp_all
  have a3: "pending_bytes ?S + 14 \<le> max_write_queue_bytes (cfg ?S)"
    by (simp add: Session_new_def default_config_def)
  have a4: "drop 1 (body ?S) = write_u64be [0, 0, 0, 0, 0, 0, 0, 0] 7 @ [0xAA, 0xBB]"
    by (simp add: b)
  have wq: "write_queue ?S = []"
    by (simp add: Session_new_def)
  note T = unknown_type_is_acknowledged [OF a1 a2, of 7 7 "[0xAA, 0xBB]"]
  from T a3 have q: "write_queue (handle_message ?S) =
      write_queue ?S @ [hello_ack_buf (read_u64be (take 8 (drop 1 (body ?S)))) 1]"
    by blast
  from T a4 have v: "read_u64be (take 8 (drop 1 (body ?S))) = 7"
    by blast
  have "write_queue (handle_message ?S) = [ [0, 0, 0, 10, 0x81, 0, 0, 0, 0, 0, 0, 0, 7, 1] ]"
    unfolding q v wq hello_ack_buf_7 by simp
  with a1 a2 a3 a4 show ?thesis
    by blast
qed

text \<open>
  Claim C4. \<open>enqueue_write\<close> adds the buffer's size to \<open>pending_bytes\<close>. If the new total
  exceeds \<open>max_write_queue_bytes\<close>, the session is closed at once, with
  \<open>no_buffer_space\<close> when it was open, and the buffer is not queued. If the total does not
  exceed the limit, nothing is closed and the buffer is queued; and enqueuing any buffers
  whose sizes add up to at most the limit, so also to exactly the limit, leaves an open
  session open.
\<close>

theorem write_queue_backpressure:
  "(max_write_queue_bytes (cfg s) < pending_bytes s + word_of_nat (length buf) \<longrightarrow>
      closed (enqueue_write buf s) \<and>
      write_queue (enqueue_write buf s) = write_queue s \<and>
      (\<not> closed s \<longrightarrow>
         close_reason (enqueue_write buf s) = Some no_buffer_space \<and>
         \<not> socket_open (enqueue_write buf s) \<and>
         io_log (enqueue_write buf s) = io_log s @ [Timer_cancel, Socket_shutdown, Socket_close]))
   \<and>
   (pending_bytes s + word_of_nat (length buf) \<le> max_write_queue_bytes (cfg s) \<longrightarrow>
      closed (enqueue_write buf s) = closed s \<and>
      socket_open (enqueue_write buf s) = socket_open s \<and>
      write_queue (enqueue_write buf s) = write_queue s @ [buf])
   \<and>
   (\<not> closed s \<and>
    unat (pending_bytes s) + queued_bytes bufs \<le> unat (max_write_queue_bytes (cfg s)) \<longrightarrow>
      \<not> closed (foldl (\<lambda>t b. enqueue_write b t) s bufs) \<and>
      write_queue (foldl (\<lambda>t b. enqueue_write b t) s bufs) = write_queue s @ bufs \<and>
      unat (pending_bytes (foldl (\<lambda>t b. enqueue_write b t) s bufs))
        = unat (pending_bytes s) + queued_bytes bufs)"
proof (intro conjI impI)
  assume o: "max_write_queue_bytes (cfg s) < pending_bytes s + word_of_nat (length buf)"
  note e = enqueue_write_overflow [OF o]
  show "closed (enqueue_write buf s)"
    unfolding e by (rule closed_fail_and_close)
  show "write_queue (enqueue_write buf s) = write_queue s"
    unfolding e by (simp add: prim_defs)
  {
    assume "\<not> closed s"
    then show "close_reason (enqueue_write buf s) = Some no_buffer_space"
      and "\<not> socket_open (enqueue_write buf s)"
      and "io_log (enqueue_write buf s) = io_log s @ [Timer_cancel, Socket_shutdown, Socket_close]"
      unfolding e by (simp_all add: prim_defs)
  }
next
  assume le: "pending_bytes s + word_of_nat (length buf) \<le> max_write_queue_bytes (cfg s)"
  note f = enqueue_write_fits [OF le]
  from f show "closed (enqueue_write buf s) = closed s" by simp
  from f show "socket_open (enqueue_write buf s) = socket_open s" by simp
  from f show "write_queue (enqueue_write buf s) = write_queue s @ [buf]" by simp
next
  assume a: "\<not> closed s \<and>
    unat (pending_bytes s) + queued_bytes bufs \<le> unat (max_write_queue_bytes (cfg s))"
  then have "\<not> closed (foldl (\<lambda>t b. enqueue_write b t) s bufs) \<and>
      write_queue (foldl (\<lambda>t b. enqueue_write b t) s bufs) = write_queue s @ bufs \<and>
      unat (pending_bytes (foldl (\<lambda>t b. enqueue_write b t) s bufs))
        = unat (pending_bytes s) + queued_bytes bufs"
    by (intro enqueue_all_fits) simp_all
  then show "\<not> closed (foldl (\<lambda>t b. enqueue_write b t) s bufs)"
    and "write_queue (foldl (\<lambda>t b. enqueue_write b t) s bufs) = write_queue s @ bufs"
    and "unat (pending_bytes (foldl (\<lambda>t b. enqueue_write b t) s bufs))
        = unat (pending_bytes s) + queued_bytes bufs"
    by simp_all
qed

text \<open>
  Claim C4 with a limit of 28 bytes: two 14-byte replies reach the limit exactly and the
  session stays open; a third closes it with \<open>no_buffer_space\<close>.
\<close>

theorem write_queue_backpressure_witness:
  "\<not> closed (Session_new ((default_config 1)\<lparr>max_write_queue_bytes := 28\<rparr>)) \<and>
   unat (pending_bytes (Session_new ((default_config 1)\<lparr>max_write_queue_bytes := 28\<rparr>)))
     + queued_bytes [hello_ack_buf 42 0, hello_ack_buf 42 0]
     = unat (max_write_queue_bytes
               (cfg (Session_new ((default_config 1)\<lparr>max_write_queue_bytes := 28\<rparr>)))) \<and>
   \<not> closed (foldl (\<lambda>t b. enqueue_write b t)
               (Session_new ((default_config 1)\<lparr>max_write_queue_bytes := 28\<rparr>))
               [hello_ack_buf 42 0, hello_ack_buf 42 0]) \<and>
   write_queue (foldl (\<lambda>t b. enqueue_write b t)
               (Session_new ((default_config 1)\<lparr>max_write_queue_bytes := 28\<rparr>))
               [hello_ack_buf 42 0, hello_ack_buf 42 0])
     = [hello_ack_buf 42 0, hello_ack_buf 42 0] \<and>
   max_write_queue_bytes (cfg (foldl (\<lambda>t b. enqueue_write b t)
               (Session_new ((default_config 1)\<lparr>max_write_queue_bytes := 28\<rparr>))
               [hello_ack_buf 42 0, hello_ack_buf 42 0]))
     < pending_bytes (foldl (\<lambda>t b. enqueue_write b t)
               (Session_new ((default_config 1)\<lparr>max_write_queue_bytes := 28\<rparr>))
               [hello_ack_buf 42 0, hello_ack_buf 42 0])
       + word_of_nat (length (hello_ack_buf 42 0)) \<and>
   closed (enqueue_write (hello_ack_buf 42 0) (foldl (\<lambda>t b. enqueue_write b t)
               (Session_new ((default_config 1)\<lparr>max_write_queue_bytes := 28\<rparr>))
               [hello_ack_buf 42 0, hello_ack_buf 42 0])) \<and>
   close_reason (enqueue_write (hello_ack_buf 42 0) (foldl (\<lambda>t b. enqueue_write b t)
               (Session_new ((default_config 1)\<lparr>max_write_queue_bytes := 28\<rparr>))
               [hello_ack_buf 42 0, hello_ack_buf 42 0])) = Some no_buffer_space"
proof -
  let ?s0 = "Session_new ((default_config 1)\<lparr>max_write_queue_bytes := 28\<rparr>)"
  let ?f = "hello_ack_buf 42 0"
  let ?s2 = "foldl (\<lambda>t b. enqueue_write b t) ?s0 [?f, ?f]"
  have c0: "\<not> closed ?s0" and p0: "pending_bytes ?s0 = 0"
    and m0: "max_write_queue_bytes (cfg ?s0) = 28"
    by (simp_all add: Session_new_def default_config_def)
  have q: "unat (pending_bytes ?s0) + queued_bytes [?f, ?f] = unat (max_write_queue_bytes (cfg ?s0))"
    unfolding p0 m0 by (simp add: length_hello_ack_buf)
  from write_queue_backpressure [of ?s0 ?f "[?f, ?f]"] c0 q
  have s2: "\<not> closed ?s2" "write_queue ?s2 = write_queue ?s0 @ [?f, ?f]"
    "unat (pending_bytes ?s2) = unat (pending_bytes ?s0) + queued_bytes [?f, ?f]"
    by simp_all
  have w0: "write_queue ?s0 = []"
    by (simp add: Session_new_def)
  have "unat (pending_bytes ?s2) = 28"
    using s2(3) unfolding p0 by (simp add: length_hello_ack_buf)
  then have "word_of_nat 28 = pending_bytes ?s2"
    by (rule unat_eq_length_word)
  then have p2: "pending_bytes ?s2 = 28"
    by simp
  have m2: "max_write_queue_bytes (cfg ?s2) = 28"
    by (simp add: cfg_enqueue_write Session_new_def default_config_def)
  have o: "max_write_queue_bytes (cfg ?s2) < pending_bytes ?s2 + word_of_nat (length ?f)"
    unfolding p2 m2 by (simp add: length_hello_ack_buf)
  from write_queue_backpressure [of ?s2 ?f "[]"] o s2(1)
  have "closed (enqueue_write ?f ?s2)"
    and "close_reason (enqueue_write ?f ?s2) = Some no_buffer_space"
    by simp_all
  with c0 q s2 o w0 show ?thesis
    by simp
qed

text \<open>
  Claim C5. A body of fewer than 9 bytes, whatever its type byte, changes nothing but the
  buffer, the pending read and the timer: the write queue, \<open>pending_bytes\<close>, \<open>closed\<close>, the
  socket and \<open>close_reason\<close> stay as they were, and the session waits for the next length
  prefix. A well-formed HELLO that follows is answered with status 0 (when frames of 9
  bytes are allowed and the queue budget has 14 bytes left).
\<close>

theorem short_body_is_ignored:
  assumes "reading s = Read_body" and "length bytes = length (body s)" and "length bytes < 9"
  shows "deliver (Body_read Success bytes) s =
           Some (s\<lparr>body := bytes, reading := Read_len,
                   io_log := io_log s @ [Timer_cancel, Timer_expires_after, Async_read 4]\<rparr>) \<and>
         (9 \<le> unat (max_frame (cfg s)) \<and>
          pending_bytes s + 14 \<le> max_write_queue_bytes (cfg s) \<longrightarrow>
            (\<exists>s2. run [Body_read Success bytes, Len_read Success [0, 0, 0, 9],
                       Body_read Success (0x01 # write_u64be [0, 0, 0, 0, 0, 0, 0, 0] ident)] s
                    = Some s2 \<and>
                  write_queue s2 = write_queue s @ [hello_ack_buf ident 0] \<and>
                  closed s2 = closed s \<and> reading s2 = Read_len))"
proof (intro conjI impI)
  let ?s1 = "s\<lparr>body := bytes, reading := Read_len,
               io_log := io_log s @ [Timer_cancel, Timer_expires_after, Async_read 4]\<rparr>"
  show d1: "deliver (Body_read Success bytes) s = Some ?s1"
    using assms by (simp add: on_read_body_def handle_message_short prim_defs)
  assume b: "9 \<le> unat (max_frame (cfg s)) \<and>
             pending_bytes s + 14 \<le> max_write_queue_bytes (cfg s)"
  let ?s2 = "read_body (?s1\<lparr>lenbuf := [0, 0, 0, 9], reading := No_read,
                             body := resize bytes 9\<rparr>)"
  have l9: "read_u32be [0, 0, 0, 9] = 9"
    by (simp add: read_u32be_def)
  have "\<not> max_frame (cfg s) < 9"
    using b by (simp add: word_less_nat_alt)
  then have d2: "deliver (Len_read Success [0, 0, 0, 9]) ?s1 = Some ?s2"
    by (simp add: on_read_len_def l9 Let_def)
  let ?hello = "0x01 # write_u64be [0, 0, 0, 0, 0, 0, 0, 0] ident"
  let ?s3 = "?s2\<lparr>body := ?hello, reading := No_read\<rparr>"
  have len: "length ?hello = 9"
    by (simp add: length_write_u64be)
  have i: "read_u64be (drop 1 (body ?s3)) = ident"
    using read_u64be_written [of "[0, 0, 0, 0, 0, 0, 0, 0]" ident "[]"] by simp
  have "handle_message ?s3 =
          enqueue_write (hello_ack_buf (read_u64be (drop 1 (body ?s3))) 0) (cancel_timer ?s3)"
    by (rule handle_message_hello) (simp_all add: length_write_u64be MSG_HELLO_def)
  then have h: "handle_message ?s3 = enqueue_write (hello_ack_buf ident 0) (cancel_timer ?s3)"
    unfolding i .
  have fit: "pending_bytes (cancel_timer ?s3) + word_of_nat (length (hello_ack_buf ident 0))
               \<le> max_write_queue_bytes (cfg (cancel_timer ?s3))"
    using b by (simp add: length_hello_ack_buf prim_defs)
  note f = enqueue_write_fits [OF fit]
  have d3: "deliver (Body_read Success ?hello) ?s2 = Some (read_len (handle_message ?s3))"
    using assms(3)
    by (simp add: on_read_body_def length_write_u64be resize_def read_body_def io_def
          refresh_timer_def)
  have r: "run [Body_read Success bytes, Len_read Success [0, 0, 0, 9],
                Body_read Success ?hello] s = Some (read_len (handle_message ?s3))"
    by (simp only: run.simps d1 d2 d3 option.case)
  have "write_queue (read_len (handle_message ?s3)) = write_queue s @ [hello_ack_buf ident 0]"
    and "closed (read_len (handle_message ?s3)) = closed s"
    and "reading (read_len (handle_message ?s3)) = Read_len"
    unfolding h using f by (simp_all add: prim_defs)
  with r show "\<exists>s2. run [Body_read Success bytes, Len_read Success [0, 0, 0, 9],
                       Body_read Success ?hello] s = Some s2 \<and>
                  write_queue s2 = write_queue s @ [hello_ack_buf ident 0] \<and>
                  closed s2 = closed s \<and> reading s2 = Read_len"
    by blast
qed

text \<open>
  Claim C5 at a HELLO with 5 body bytes, followed by a HELLO with id 42.
\<close>

theorem short_body_is_ignored_witness:
  "reading ((start (Session_new (default_config 1)))
              \<lparr>reading := Read_body, body := [0, 0, 0, 0, 0]\<rparr>) = Read_body \<and>
   length [1, 2, 3, 4, 5 :: byte]
     = length (body ((start (Session_new (default_config 1)))
                       \<lparr>reading := Read_body, body := [0, 0, 0, 0, 0]\<rparr>)) \<and>
   length [1, 2, 3, 4, 5 :: byte] < 9 \<and>
   9 \<le> unat (max_frame (cfg ((start (Session_new (default_config 1)))
                                \<lparr>reading := Read_body, body := [0, 0, 0, 0, 0]\<rparr>))) \<and>
   pending_bytes ((start (Session_new (default_config 1)))
                    \<lparr>reading := Read_body, body := [0, 0, 0, 0, 0]\<rparr>) + 14
     \<le> max_write_queue_bytes (cfg ((start (Session_new (default_config 1)))
                                     \<lparr>reading := Read_body, body := [0, 0, 0, 0, 0]\<rparr>)) \<and>
   (\<exists>s1. deliver (Body_read Success [1, 2, 3, 4, 5])
            ((start (Session_new (default_config 1)))
               \<lparr>reading := Read_body, body := [0, 0, 0, 0, 0]\<rparr>) = Some s1 \<and>
         write_queue s1 = [] \<and> \<not> closed s1 \<and> socket_open s1 \<and> close_reason s1 = None \<and>
         reading s1 = Read_len) \<and>
   (\<exists>s2. run [Body_read Success [1, 2, 3, 4, 5], Len_read Success [0, 0, 0, 9],
              Body_read Success (0x01 # write_u64be [0, 0, 0, 0, 0, 0, 0, 0] 42)]
            ((start (Session_new (default_config 1)))
               \<lparr>reading := Read_body, body := [0, 0, 0, 0, 0]\<rparr>) = Some s2 \<and>
         write_queue s2 = [hello_ack_buf 42 0] \<and> \<not> closed s2)"
proof -
  let ?S = "(start (Session_new (default_config 1)))
              \<lparr>reading := Read_body, body := [0, 0, 0, 0, 0]\<rparr>"
  have a1: "reading ?S = Read_body"
    and a2: "length [1, 2, 3, 4, 5 :: byte] = length (body ?S)"
    and a3: "length [1, 2, 3, 4, 5 :: byte] < 9"
    by simp_all
  have a4: "9 \<le> unat (max_frame (cfg ?S))"
    and a5: "pending_bytes ?S + 14 \<le> max_write_queue_bytes (cfg ?S)"
    and f: "write_queue ?S = []" "\<not> closed ?S" "socket_open ?S" "close_reason ?S = None"
    by (simp_all add: start_def Session_new_def default_config_def prim_defs)
  note T = short_body_is_ignored [OF a1 a2 a3, of 42]
  from T f have "\<exists>s1. deliver (Body_read Success [1, 2, 3, 4, 5]) ?S = Some s1 \<and>
         write_queue s1 = [] \<and> \<not> closed s1 \<and> socket_open s1 \<and> close_reason s1 = None \<and>
         reading s1 = Read_len"
    by simp
  moreover from T a4 a5 f
  have "\<exists>s2. run [Body_read Success [1, 2, 3, 4, 5], Len_read Success [0, 0, 0, 9],
              Body_read Success (0x01 # write_u64be [0, 0, 0, 0, 0, 0, 0, 0] 42)] ?S = Some s2 \<and>
         write_queue s2 = [hello_ack_buf 42 0] \<and> \<not> closed s2"
    by (metis append_Nil)
  ultimately show ?thesis
    using a1 a2 a3 a4 a5 by blast
qed

text \<open>
  Claim C6. In every sequence of completions delivered to one call of \<^verbatim>\<open>async_connect\<close>
  or \<^verbatim>\<open>async_handshake\<close>, the handler has been invoked at most once; it has been invoked
  exactly once as soon as \<^verbatim>\<open>*done\<close> is set, and \<^verbatim>\<open>*done\<close> is set once the I/O chain has
  ended. A timer that expires before that wins with \<open>timed_out\<close>, and every completion
  delivered after \<^verbatim>\<open>*done\<close> was set invokes nothing.
\<close>

theorem handler_runs_once:
  "(run_connect es (async_connect a) = Some p \<longrightarrow>
      length (op_handler_calls p) \<le> 1 \<and>
      (op_done p \<longleftrightarrow> length (op_handler_calls p) = 1) \<and>
      (op_stage p = Connect_ended \<longrightarrow> op_done p) \<and>
      (op_done p \<and> deliver_connect e p = Some p' \<longrightarrow>
         op_done p' \<and> op_handler_calls p' = op_handler_calls p) \<and>
      (\<not> op_done p \<and> tec \<noteq> operation_aborted \<and>
       deliver_connect (Connect_timer tec) p = Some p' \<longrightarrow>
         op_done p' \<and> op_handler_calls p' = [timed_out]) \<and>
      (\<not> op_done p \<and> deliver_connect (Connected ec) p = Some p' \<longrightarrow>
         op_done p' \<and> op_handler_calls p' = [ec]))
   \<and>
   (run_handshake cid hs (async_handshake cid b) = Some q \<longrightarrow>
      length (op_handler_calls q) \<le> 1 \<and>
      (op_done q \<longleftrightarrow> length (op_handler_calls q) = 1) \<and>
      (op_stage q = Handshake_ended \<longrightarrow> op_done q) \<and>
      (op_done q \<and> deliver_handshake cid h q = Some q' \<longrightarrow>
         op_done q' \<and> op_handler_calls q' = op_handler_calls q) \<and>
      (\<not> op_done q \<and> tec \<noteq> operation_aborted \<and>
       deliver_handshake cid (Handshake_timer tec) q = Some q' \<longrightarrow>
         op_done q' \<and> op_handler_calls q' = [(timed_out, 0, 0)]) \<and>
      (\<not> op_done q \<and> deliver_handshake cid (Ack_body ecb bytes) q = Some q' \<longrightarrow>
         op_done q' \<and> length (op_handler_calls q') = 1))"
proof (intro conjI impI)
  assume r: "run_connect es (async_connect a) = Some p"
  have "op_stage (async_connect a) = Connect_ended \<longrightarrow> op_done (async_connect a)"
    by (simp add: async_connect_def)
  with once_inv_async_connect
  have i: "once_inv p \<and> (op_stage p = Connect_ended \<longrightarrow> op_done p)"
    using r by (rule connect_run_inv)
  then show "length (op_handler_calls p) \<le> 1"
    and "op_done p \<longleftrightarrow> length (op_handler_calls p) = 1"
    by (auto simp: once_inv_def split: if_splits)
  from i show "op_done p" if "op_stage p = Connect_ended"
    using that by simp
  {
    assume "op_done p \<and> deliver_connect e p = Some p'"
    then show "op_done p'" and "op_handler_calls p' = op_handler_calls p"
      using connect_done_stays [of p e p'] by simp_all
  }
  {
    assume "\<not> op_done p \<and> tec \<noteq> operation_aborted \<and>
            deliver_connect (Connect_timer tec) p = Some p'"
    with i show "op_done p'" and "op_handler_calls p' = [timed_out]"
      by (auto simp: once_inv_def connect_defs op_defs Let_def split: if_splits)
  }
  {
    assume "\<not> op_done p \<and> deliver_connect (Connected ec) p = Some p'"
    with i show "op_done p'" and "op_handler_calls p' = [ec]"
      by (auto simp: once_inv_def connect_defs op_defs Let_def split: if_splits)
  }
next
  assume r: "run_handshake cid hs (async_handshake cid b) = Some q"
  have "op_stage (async_handshake cid b) = Handshake_ended \<longrightarrow> op_done (async_handshake cid b)"
    by (simp add: async_handshake_def)
  with once_inv_async_handshake
  have i: "once_inv q \<and> (op_stage q = Handshake_ended \<longrightarrow> op_done q)"
    using r by (rule handshake_run_inv)
  then show "length (op_handler_calls q) \<le> 1"
    and "op_done q \<longleftrightarrow> length (op_handler_calls q) = 1"
    by (auto simp: once_inv_def split: if_splits)
  from i show "op_done q" if "op_stage q = Handshake_ended"
    using that by simp
  {
    assume "op_done q \<and> deliver_handshake cid h q = Some q'"
    then show "op_done q'" and "op_handler_calls q' = op_handler_calls q"
      using handshake_done_stays [of q cid h q'] by simp_all
  }
  {
    assume "\<not> op_done q \<and> tec \<noteq> operation_aborted \<and>
            deliver_handshake cid (Handshake_timer tec) q = Some q'"
    with i show "op_done q'" and "op_handler_calls q' = [(timed_out, 0, 0)]"
      by (auto simp: once_inv_def handshake_defs op_defs Let_def split: if_splits)
  }
  {
    assume a: "\<not> op_done q \<and> deliver_handshake cid (Ack_body ecb bytes) q = Some q'"
    then have "once_inv q'"
      using i once_inv_handshake [of q cid "Ack_body ecb bytes" q'] by simp
    moreover from a show "op_done q'"
      by (auto simp: handshake_defs op_defs Let_def split: if_splits)
    ultimately show "length (op_handler_calls q') = 1"
      by (simp add: once_inv_def)
  }
qed

text \<open>
  Claim C6 in both orders, for \<^verbatim>\<open>async_connect\<close> and for \<^verbatim>\<open>async_handshake\<close>: where the
  timer expires first, the success that arrives afterwards is dropped; where the I/O
  completes first, the timer's expiry is dropped.
\<close>

theorem handler_runs_once_witness:
  "(\<exists>p pt ps pc pd.
      run_connect [Resolved Success] (async_connect AsyncClient_new) = Some p \<and>
      \<not> op_done p \<and>
      deliver_connect (Connect_timer Success) p = Some pt \<and>
      op_done pt \<and> op_handler_calls pt = [timed_out] \<and>
      deliver_connect (Connected Success) pt = Some ps \<and>
      op_handler_calls ps = [timed_out] \<and>
      deliver_connect (Connected Success) p = Some pc \<and>
      op_done pc \<and> op_handler_calls pc = [Success] \<and>
      deliver_connect (Connect_timer Success) pc = Some pd \<and>
      op_handler_calls pd = [Success]) \<and>
   (\<exists>q qt qs qb.
      run_handshake 42 [Hello_written Success, Ack_len Success [0, 0, 0, 10]]
        (async_handshake 42 AsyncClient_new) = Some q \<and>
      \<not> op_done q \<and>
      deliver_handshake 42 (Handshake_timer Success) q = Some qt \<and>
      op_done qt \<and> op_handler_calls qt = [(timed_out, 0, 0)] \<and>
      deliver_handshake 42 (Ack_body Success [0x81, 0, 0, 0, 0, 0, 0, 0, 42, 0]) qt = Some qs \<and>
      op_handler_calls qs = [(timed_out, 0, 0)] \<and>
      deliver_handshake 42 (Ack_body Success [0x81, 0, 0, 0, 0, 0, 0, 0, 42, 0]) q = Some qb \<and>
      op_done qb \<and> op_handler_calls qb = [(Success, 42, 0)])"
proof -
  obtain p pt pc where r: "run_connect [Resolved Success] (async_connect AsyncClient_new) = Some p"
    and nd: "\<not> op_done p" and dt: "deliver_connect (Connect_timer Success) p = Some pt"
    and st: "op_stage pt = Connecting"
    and dc: "deliver_connect (Connected Success) p = Some pc" and tw: "op_timer_wait pc"
    using connect_example by blast
  have ne: "Success \<noteq> operation_aborted"
    by simp
  note T1 = handler_runs_once [where es = "[Resolved Success]" and a = AsyncClient_new
      and p = p and tec = Success and ec = Success]
  from T1 [where p' = pt] r nd dt ne
  have t: "op_done pt" "op_handler_calls pt = [timed_out]"
    by blast+
  from T1 [where p' = pc] r nd dc
  have c: "op_done pc" "op_handler_calls pc = [Success]"
    by blast+
  obtain ps where ds: "deliver_connect (Connected Success) pt = Some ps"
    using st by simp
  obtain pd where dd: "deliver_connect (Connect_timer Success) pc = Some pd"
    using tw by simp
  have r2: "run_connect [Resolved Success, Connect_timer Success] (async_connect AsyncClient_new)
              = Some pt"
    using run_connect_snoc [OF r dt] by simp
  from handler_runs_once [where es = "[Resolved Success, Connect_timer Success]"
      and a = AsyncClient_new and p = pt and e = "Connected Success" and p' = ps] r2 t(1) ds
  have "op_handler_calls ps = op_handler_calls pt"
    by blast
  with t have s: "op_handler_calls ps = [timed_out]"
    by simp
  have r3: "run_connect [Resolved Success, Connected Success] (async_connect AsyncClient_new)
              = Some pc"
    using run_connect_snoc [OF r dc] by simp
  from handler_runs_once [where es = "[Resolved Success, Connected Success]"
      and a = AsyncClient_new and p = pc and e = "Connect_timer Success" and p' = pd] r3 c(1) dd
  have "op_handler_calls pd = op_handler_calls pc"
    by blast
  with c have d: "op_handler_calls pd = [Success]"
    by simp
  obtain q qt qb
    where hr: "run_handshake 42 [Hello_written Success, Ack_len Success [0, 0, 0, 10]]
            (async_handshake 42 AsyncClient_new) = Some q"
    and hnd: "\<not> op_done q" and hdt: "deliver_handshake 42 (Handshake_timer Success) q = Some qt"
    and hst: "op_stage qt = Reading_body" "length (cl_body (op_self qt)) = 10"
    and hdb: "deliver_handshake 42 (Ack_body Success [0x81, 0, 0, 0, 0, 0, 0, 0, 42, 0]) q = Some qb"
    and hcb: "op_handler_calls qb = [(Success, 42, 0)]"
    using handshake_example by blast
  note T2 = handler_runs_once [where cid = 42
      and hs = "[Hello_written Success, Ack_len Success [0, 0, 0, 10]]"
      and b = AsyncClient_new and q = q and tec = Success and ecb = Success
      and bytes = "[0x81, 0, 0, 0, 0, 0, 0, 0, 42, 0]"]
  from T2 [where q' = qt] hr hnd hdt ne
  have ht: "op_done qt" "op_handler_calls qt = [(timed_out, 0, 0)]"
    by blast+
  from T2 [where q' = qb] hr hnd hdb
  have hb: "op_done qb"
    by blast
  obtain qs where hds:
    "deliver_handshake 42 (Ack_body Success [0x81, 0, 0, 0, 0, 0, 0, 0, 42, 0]) qt = Some qs"
    using hst by simp
  have hr2: "run_handshake 42 [Hello_written Success, Ack_len Success [0, 0, 0, 10],
               Handshake_timer Success] (async_handshake 42 AsyncClient_new) = Some qt"
    using run_handshake_snoc [OF hr hdt] by simp
  from handler_runs_once [where cid = 42
      and hs = "[Hello_written Success, Ack_len Success [0, 0, 0, 10], Handshake_timer Success]"
      and b = AsyncClient_new and q = qt
      and h = "Ack_body Success [0x81, 0, 0, 0, 0, 0, 0, 0, 42, 0]" and q' = qs] hr2 ht(1) hds
  have "op_handler_calls qs = op_handler_calls qt"
    by blast
  with ht have hs: "op_handler_calls qs = [(timed_out, 0, 0)]"
    by simp
  from r nd dt t ds s dc c dd d have A: "\<exists>p pt ps pc pd.
      run_connect [Resolved Success] (async_connect AsyncClient_new) = Some p \<and>
      \<not> op_done p \<and>
      deliver_connect (Connect_timer Success) p = Some pt \<and>
      op_done pt \<and> op_handler_calls pt = [timed_out] \<and>
      deliver_connect (Connected Success) pt = Some ps \<and>
      op_handler_calls ps = [timed_out] \<and>
      deliver_connect (Connected Success) p = Some pc \<and>
      op_done pc \<and> op_handler_calls pc = [Success] \<and>
      deliver_connect (Connect_timer Success) pc = Some pd \<and>
      op_handler_calls pd = [Success]"
    by blast
  from hr hnd hdt ht hds hs hdb hb hcb have B: "\<exists>q qt qs qb.
      run_handshake 42 [Hello_written Success, Ack_len Success [0, 0, 0, 10]]
        (async_handshake 42 AsyncClient_new) = Some q \<and>
      \<not> op_done q \<and>
      deliver_handshake 42 (Handshake_timer Success) q = Some qt \<and>
      op_done qt \<and> op_handler_calls qt = [(timed_out, 0, 0)] \<and>
      deliver_handshake 42 (Ack_body Success [0x81, 0, 0, 0, 0, 0, 0, 0, 42, 0]) qt = Some qs \<and>
      op_handler_calls qs = [(timed_out, 0, 0)] \<and>
      deliver_handshake 42 (Ack_body Success [0x81, 0, 0, 0, 0, 0, 0, 0, 42, 0]) q = Some qb \<and>
      op_done qb \<and> op_handler_calls qb = [(Success, 42, 0)]"
    by blast
  from A B show ?thesis
    by (rule conjI)
qed




text \<open>
  Claim C8. For every u32 value \<open>v\<close>, reading the 4 big-endian bytes that
  \<^verbatim>\<open>write_u32be\<close> stored gives \<open>v\<close> back, and for every u64 value \<open>w\<close>, reading the 8 bytes
  that \<^verbatim>\<open>write_u64be\<close> stored gives \<open>w\<close> back, whatever the buffer held before.
\<close>

theorem codec_round_trip:
  "(4 \<le> length p \<longrightarrow> read_u32be (write_u32be p v) = v) \<and>
   (8 \<le> length q \<longrightarrow> read_u64be (write_u64be q w) = w)"
  by (simp add: read_write_u32be read_write_u64be)

text \<open>
  Claim C8 at \<open>0xDEADBEEF\<close> and \<open>0x0123456789ABCDEF\<close>.
\<close>

theorem codec_round_trip_witness:
  "4 \<le> length (replicate 4 (0 :: byte)) \<and>
   read_u32be (write_u32be (replicate 4 0) 0xDEADBEEF) = 0xDEADBEEF \<and>
   8 \<le> length (replicate 8 (0 :: byte)) \<and>
   read_u64be (write_u64be (replicate 8 0) 0x0123456789ABCDEF) = 0x0123456789ABCDEF"
  using codec_round_trip [of "replicate 4 0" "0xDEADBEEF" "replicate 8 0" "0x0123456789ABCDEF"]
  by simp

text \<open>
  Claim C9 as stated fails: I/O callbacks do fire after the timeout. When the timer expires
  during the resolve, the resolve's callback still runs afterwards (here with success); when
  it expires during the connect, the cancelled connect's callback still runs (with
  \<open>operation_aborted\<close>). Both return at the test of \<^verbatim>\<open>*done\<close>: the handler has been invoked
  once, with \<open>timed_out\<close>, and no further call is made.
\<close>

theorem timeout_callbacks_counterexample:
  "run_connect [Connect_timer Success, Resolved Success] (async_connect AsyncClient_new) =
     Some \<lparr>op_self = \<lparr>cl_lenbuf = [0, 0, 0, 0], cl_body = [], cl_socket_open = False,
                      cl_log = [Timer_expires_after, Async_resolve, Socket_cancel, Socket_close]\<rparr>,
           op_done = True, op_handler_calls = [timed_out], op_timer_wait = False,
           op_stage = Connect_ended\<rparr> \<and>
   run_connect [Resolved Success, Connect_timer Success, Connected operation_aborted]
       (async_connect AsyncClient_new) =
     Some \<lparr>op_self = \<lparr>cl_lenbuf = [0, 0, 0, 0], cl_body = [], cl_socket_open = False,
                      cl_log = [Timer_expires_after, Async_resolve, Async_connect,
                                Socket_cancel, Socket_close]\<rparr>,
           op_done = True, op_handler_calls = [timed_out], op_timer_wait = False,
           op_stage = Connect_ended\<rparr>"
  by (simp add: client_eval eval_nat_numeral)

text \<open>
  Claim C9, amended. When the deadline timer of \<^verbatim>\<open>async_connect\<close> expires before
  \<^verbatim>\<open>*done\<close> is set, the timeout handler cancels the socket's operations, closes the socket
  and gives the handler \<open>timed_out\<close>. The I/O callbacks that are delivered afterwards invoke
  no handler, make no further call and leave the socket closed.
\<close>

theorem connect_timeout:
  assumes "op_timer_wait p" and "\<not> op_done p" and "tec \<noteq> operation_aborted"
  shows "\<exists>p'. deliver_connect (Connect_timer tec) p = Some p' \<and>
           p' = p\<lparr>op_timer_wait := False, op_done := True,
                   op_handler_calls := op_handler_calls p @ [timed_out],
                   op_self := (op_self p)
                     \<lparr>cl_socket_open := False,
                      cl_log := cl_log (op_self p) @ [Socket_cancel, Socket_close]\<rparr>\<rparr> \<and>
           op_stage p' = op_stage p \<and>
           (\<forall>es p''. run_connect es p' = Some p'' \<longrightarrow>
              op_handler_calls p'' = op_handler_calls p' \<and>
              cl_log (op_self p'') = cl_log (op_self p') \<and>
              \<not> cl_socket_open (op_self p''))"
proof -
  let ?p' = "p\<lparr>op_timer_wait := False, op_done := True,
                op_handler_calls := op_handler_calls p @ [timed_out],
                op_self := (op_self p)
                  \<lparr>cl_socket_open := False,
                   cl_log := cl_log (op_self p) @ [Socket_cancel, Socket_close]\<rparr>\<rparr>"
  have d: "deliver_connect (Connect_timer tec) p = Some ?p'"
    using assms by (simp add: connect_defs op_defs Let_def)
  have dn: "op_done ?p'"
    by simp
  have l: "op_handler_calls p'' = op_handler_calls ?p' \<and>
           cl_log (op_self p'') = cl_log (op_self ?p') \<and>
           \<not> cl_socket_open (op_self p'')"
    if r: "run_connect es ?p' = Some p''" for es p''
  proof -
    note c = connect_done_run [OF dn r]
    have "\<not> cl_socket_open (op_self ?p')"
      by simp
    with c show ?thesis
      by blast
  qed
  show ?thesis
  proof (intro exI [of _ ?p'] conjI allI impI)
    show "deliver_connect (Connect_timer tec) p = Some ?p'"
      by (rule d)
    show "?p' = ?p'" ..
    show "op_stage ?p' = op_stage p"
      by simp
    show "op_handler_calls p'' = op_handler_calls ?p'"
      and "cl_log (op_self p'') = cl_log (op_self ?p')"
      and "\<not> cl_socket_open (op_self p'')"
      if "run_connect es ?p' = Some p''" for es p''
      using l [OF that] by blast+
  qed
qed

text \<open>
  Claim C9, amended, at a timer that expires during the resolve, which then succeeds.
\<close>

theorem connect_timeout_witness:
  "op_timer_wait (async_connect AsyncClient_new) \<and>
   \<not> op_done (async_connect AsyncClient_new) \<and>
   Success \<noteq> operation_aborted \<and>
   (\<exists>p' p''. deliver_connect (Connect_timer Success) (async_connect AsyncClient_new) = Some p' \<and>
      op_handler_calls p' = [timed_out] \<and>
      cl_log (op_self p') = [Timer_expires_after, Async_resolve, Socket_cancel, Socket_close] \<and>
      run_connect [Resolved Success] p' = Some p'' \<and>
      op_handler_calls p'' = [timed_out] \<and>
      cl_log (op_self p'') = [Timer_expires_after, Async_resolve, Socket_cancel, Socket_close] \<and>
      \<not> cl_socket_open (op_self p''))"
proof -
  let ?p = "async_connect AsyncClient_new"
  have a1: "op_timer_wait ?p" and a2: "\<not> op_done ?p" and a3: "Success \<noteq> operation_aborted"
    and c: "op_handler_calls ?p = []"
    and l: "cl_log (op_self ?p) = [Timer_expires_after, Async_resolve]"
    and s: "op_stage ?p = Resolving"
    by (simp_all add: async_connect_def AsyncClient_new_def cl_io_def)
  from connect_timeout [OF a1 a2 a3] obtain p'
    where d: "deliver_connect (Connect_timer Success) ?p = Some p'"
      and e: "p' = ?p\<lparr>op_timer_wait := False, op_done := True,
                   op_handler_calls := op_handler_calls ?p @ [timed_out],
                   op_self := (op_self ?p)
                     \<lparr>cl_socket_open := False,
                      cl_log := cl_log (op_self ?p) @ [Socket_cancel, Socket_close]\<rparr>\<rparr>"
      and st: "op_stage p' = op_stage ?p"
      and after: "\<forall>es p''. run_connect es p' = Some p'' \<longrightarrow>
              op_handler_calls p'' = op_handler_calls p' \<and>
              cl_log (op_self p'') = cl_log (op_self p') \<and>
              \<not> cl_socket_open (op_self p'')"
    by blast
  have h: "op_handler_calls p' = [timed_out]"
    and g: "cl_log (op_self p') = [Timer_expires_after, Async_resolve, Socket_cancel, Socket_close]"
    unfolding e using c l by simp_all
  obtain p'' where r: "run_connect [Resolved Success] p' = Some p''"
    using st s by simp
  from after r have "op_handler_calls p'' = op_handler_calls p' \<and>
              cl_log (op_self p'') = cl_log (op_self p') \<and>
              \<not> cl_socket_open (op_self p'')"
    by blast
  with h g have "op_handler_calls p'' = [timed_out] \<and>
      cl_log (op_self p'') = [Timer_expires_after, Async_resolve, Socket_cancel, Socket_close] \<and>
      \<not> cl_socket_open (op_self p'')"
    by simp
  with a1 a2 a3 d h g r show ?thesis
    by blast
qed




end
